theory Spec2Isabelle
  imports Main
begin

section \<open>JavaScript values\<close>

text \<open>
  The model covers \<^verbatim>\<open>src/Stepper.js\<close> (the class \<^verbatim>\<open>Stepper\<close>) and the
  \<^verbatim>\<open>StopClock\<close> factory it requires. Every method takes the object it is called on
  and the state it reads, and returns its result with the object and the state as it leaves
  them. The arrays that hold the Context and the Datasets live in an explicit store and are
  named by an address, so that two references to one array can be told from two arrays with
  the same elements; clocks, Datasets, steps and the engine itself are records, passed by
  value. A \<^verbatim>\<open>throw\<close> is a result \<open>Inl\<close>, a normal return a result \<open>Inr\<close>.
\<close>

type_synonym addr = nat

text \<open>
  Numbers: every number the code computes is an integer count of milliseconds, the
  \<^verbatim>\<open>NaN\<close> obtained by subtracting \<^verbatim>\<open>undefined\<close>, or the literal
  \<^verbatim>\<open>Infinity\<close>.
\<close>

datatype jsnum = Num int | NaN | Infinity

datatype jsval =
    JUndefined
  | JNull
  | JBool bool
  | JNum jsnum
  | JStr string
  | JArr addr
  | JObj addr

text \<open>\<^verbatim>\<open>ToBoolean\<close>: what \<^verbatim>\<open>if (v)\<close>, \<^verbatim>\<open>v || w\<close> and \<^verbatim>\<open>v ? a : b\<close> test.\<close>

fun truthy :: "jsval \<Rightarrow> bool" where
  "truthy JUndefined = False"
| "truthy JNull = False"
| "truthy (JBool b) = b"
| "truthy (JNum (Num n)) = (n \<noteq> 0)"
| "truthy (JNum NaN) = False"
| "truthy (JNum Infinity) = True"
| "truthy (JStr s) = (s \<noteq> [])"
| "truthy (JArr a) = True"
| "truthy (JObj a) = True"

definition isArray :: "jsval \<Rightarrow> bool" where
  "isArray v = (case v of JArr a \<Rightarrow> True | _ \<Rightarrow> False)"

text \<open>
  A stop label is documented as \<^verbatim>\<open>@param {string} label\<close>; the parameter may be
  omitted (\<^verbatim>\<open>undefined\<close>) and \<^verbatim>\<open>stop\<close> stores \<^verbatim>\<open>null\<close> for a
  missing one. On these values \<^verbatim>\<open>==\<close> needs no coercion: \<^verbatim>\<open>null\<close> and
  \<^verbatim>\<open>undefined\<close> equal each other and nothing else, two strings are equal when they are
  the same string.
\<close>

datatype label = LUndefined | LNull | LStr string

fun truthy_label :: "label \<Rightarrow> bool" where
  "truthy_label LUndefined = False"
| "truthy_label LNull = False"
| "truthy_label (LStr s) = (s \<noteq> [])"

fun loose_eq :: "label \<Rightarrow> label \<Rightarrow> bool" where
  "loose_eq (LStr a) (LStr b) = (a = b)"
| "loose_eq (LStr a) LUndefined = False"
| "loose_eq (LStr a) LNull = False"
| "loose_eq LUndefined (LStr b) = False"
| "loose_eq LNull (LStr b) = False"
| "loose_eq LUndefined LUndefined = True"
| "loose_eq LUndefined LNull = True"
| "loose_eq LNull LUndefined = True"
| "loose_eq LNull LNull = True"

text \<open>
  \<^verbatim>\<open>xs[i]\<close>: a read outside the array gives \<^verbatim>\<open>undefined\<close> (\<open>None\<close>), also at
  index \<open>-1\<close>.
\<close>

definition js_index :: "'a list \<Rightarrow> int \<Rightarrow> 'a option" where
  "js_index xs i = (if 0 \<le> i \<and> i < int (length xs) then Some (xs ! nat i) else None)"


section \<open>The system clock\<close>

text \<open>
  \<^verbatim>\<open>Date.now()\<close> is the only input the clocks read. A timeline is the sequence of
  values its successive calls return; a call takes the head and leaves the rest. Nothing is
  assumed about the values (they need not increase).
\<close>

type_synonym timeline = "nat \<Rightarrow> int"

definition Date_now :: "timeline \<Rightarrow> int \<times> timeline" where
  "Date_now ts = (ts 0, \<lambda>n. ts (Suc n))"


section \<open>StopClock\<close>

text \<open>
  A stop is \<^verbatim>\<open>Object(Date.now())\<close> with a \<^verbatim>\<open>label\<close> property: a Number object
  (always truthy) whose numeric value \<open>st_value\<close> is the reading of the system clock.
\<close>

record stoptime =
  st_value :: int
  st_label :: label

record stopclock =
  start :: int
  stops :: "stoptime list"

text \<open>\<^verbatim>\<open>StopClock()\<close>: a new object with \<^verbatim>\<open>start: Date.now()\<close> and \<^verbatim>\<open>stops: []\<close>.\<close>

definition StopClock :: "timeline \<Rightarrow> stopclock \<times> timeline" where
  "StopClock ts = (let (now, ts1) = Date_now ts in (\<lparr>start = now, stops = []\<rparr>, ts1))"

text \<open>
  \<^verbatim>\<open>reset() { this.start = Date.now(); this.stops.splice(0, this.stops.length) }\<close>
\<close>

definition StopClock_reset :: "stopclock \<Rightarrow> timeline \<Rightarrow> stopclock \<times> timeline" where
  "StopClock_reset c ts =
     (let (now, ts1) = Date_now ts in (c\<lparr>start := now, stops := []\<rparr>, ts1))"

text \<open>
  \<^verbatim>\<open>
  stop(label) {
    const now = Object(Date.now());
    const last = this.stops.length ? this.stops[this.stops.length - 1] : this.start
    const time = now - last;
    now.label = label || null;
    this.stops.push(now);
    return time;
  }
  \<close>
\<close>

definition StopClock_stop ::
    "label \<Rightarrow> stopclock \<Rightarrow> timeline \<Rightarrow> int \<times> stopclock \<times> timeline" where
  "StopClock_stop lbl c ts =
     (let (now, ts1) = Date_now ts;
          lastv = (if length (stops c) \<noteq> 0
                   then st_value (stops c ! (length (stops c) - 1))
                   else start c);
          time = now - lastv;
          now_obj = \<lparr>st_value = now,
                     st_label = (if truthy_label lbl then lbl else LNull)\<rparr>
      in (time, c\<lparr>stops := stops c @ [now_obj]\<rparr>, ts1))"

text \<open>
  \<^verbatim>\<open>
  get time() {
    let stop = this.stops.length ? this.stops[this.stops.length - 1] : Date.now()
    return stop - this.start;
  }
  \<close>
\<close>

definition StopClock_time :: "stopclock \<Rightarrow> timeline \<Rightarrow> int \<times> timeline" where
  "StopClock_time c ts =
     (if length (stops c) \<noteq> 0
      then (st_value (stops c ! (length (stops c) - 1)) - start c, ts)
      else (let (now, ts1) = Date_now ts in (now - start c, ts1)))"

text \<open>\<^verbatim>\<open>get timeSinceStart() { return Date.now() - this.start }\<close>\<close>

definition StopClock_timeSinceStart :: "stopclock \<Rightarrow> timeline \<Rightarrow> int \<times> timeline" where
  "StopClock_timeSinceStart c ts = (let (now, ts1) = Date_now ts in (now - start c, ts1))"

text \<open>
  \<^verbatim>\<open>n - x\<close> where \<^verbatim>\<open>x\<close> is a stop or \<^verbatim>\<open>undefined\<close>:
  \<^verbatim>\<open>ToNumber(undefined)\<close> is \<^verbatim>\<open>NaN\<close>.
\<close>

fun minus_stop :: "int \<Rightarrow> stoptime option \<Rightarrow> jsnum" where
  "minus_stop n None = NaN"
| "minus_stop n (Some s) = Num (n - st_value s)"

text \<open>
  \<^verbatim>\<open>
  get timeSinceLastStop() {
    if (this.stops.length) { return this.time; }
    return Date.now() - this.stops[this.stops.length - 1];
  }
  \<close>
\<close>

definition StopClock_timeSinceLastStop :: "stopclock \<Rightarrow> timeline \<Rightarrow> jsnum \<times> timeline" where
  "StopClock_timeSinceLastStop c ts =
     (if length (stops c) \<noteq> 0
      then (let (t, ts1) = StopClock_time c ts in (Num t, ts1))
      else (let (now, ts1) = Date_now ts
            in (minus_stop now (js_index (stops c) (int (length (stops c)) - 1)), ts1)))"

text \<open>
  \<^verbatim>\<open>
  findStop(label) {
    return this.stops.reduce((p, c, i) => {
      if (p) { return p; }
      if (c && c.label && c.label == label) {
        return Object.assign(Object(+c), {stop: +c, start: this.start, label: c.label, index: i})
      }
      return null;
    }, null)
  }
  \<close>
  The accumulator is \<^verbatim>\<open>null\<close> (\<open>None\<close>) or the object built for a match, which is
  truthy; \<^verbatim>\<open>c\<close> is a Number object, which is truthy too.
\<close>

record found_stop =
  fs_value :: int
  fs_stop :: int
  fs_start :: int
  fs_label :: label
  fs_index :: nat

definition findStop_step ::
    "stopclock \<Rightarrow> label \<Rightarrow> found_stop option \<Rightarrow> nat \<times> stoptime \<Rightarrow> found_stop option" where
  "findStop_step this lbl p ic =
     (case ic of (i, c) \<Rightarrow>
        if p \<noteq> None then p
        else if truthy_label (st_label c) \<and> loose_eq (st_label c) lbl
        then Some \<lparr>fs_value = st_value c, fs_stop = st_value c, fs_start = start this,
                   fs_label = st_label c, fs_index = i\<rparr>
        else None)"

definition StopClock_findStop :: "label \<Rightarrow> stopclock \<Rightarrow> found_stop option" where
  "StopClock_findStop lbl c = foldl (findStop_step c lbl) None (enumerate 0 (stops c))"

text \<open>
  \<^verbatim>\<open>
  get summary() {
    let summary = {
      start: this.start,
      stops: this.stops.map((stop, index, array) => {
        return { time: +stop, delta: index == 0 ? 0 : stop - array[index - 1],
                 total: stop - this.start, label: stop.label } }),
      stop: this.stops[this.stops.length - 1] || Infinity,
      total: this.time,
      sinceStart: this.timeSinceStart, ... }
    return summary;
  }
  \<close>
  The properties are evaluated in the order written, so \<^verbatim>\<open>time\<close> reads the system clock
  (when it does) before \<^verbatim>\<open>timeSinceStart\<close>.
\<close>

record summary_entry =
  se_time :: int
  se_delta :: int
  se_total :: int
  se_label :: label

datatype summary_stop = StopObject stoptime | InfinitySentinel

record summary =
  sm_start :: int
  sm_stops :: "summary_entry list"
  sm_stop :: summary_stop
  sm_total :: int
  sm_sinceStart :: int

definition summary_entry_of :: "stopclock \<Rightarrow> stoptime list \<Rightarrow> nat \<times> stoptime \<Rightarrow> summary_entry" where
  "summary_entry_of this array is =
     (case is of (index, stop) \<Rightarrow>
        \<lparr>se_time = st_value stop,
         se_delta = (if index = 0 then 0 else st_value stop - st_value (array ! (index - 1))),
         se_total = st_value stop - start this,
         se_label = st_label stop\<rparr>)"

definition StopClock_summary :: "stopclock \<Rightarrow> timeline \<Rightarrow> summary \<times> timeline" where
  "StopClock_summary c ts =
     (let entries = map (summary_entry_of c (stops c)) (enumerate 0 (stops c));
          stopf = (case js_index (stops c) (int (length (stops c)) - 1) of
                     Some s \<Rightarrow> StopObject s
                   | None \<Rightarrow> InfinitySentinel);
          (total, ts1) = StopClock_time c ts;
          (since, ts2) = StopClock_timeSinceStart c ts1
      in (\<lparr>sm_start = start c, sm_stops = entries, sm_stop = stopf,
           sm_total = total, sm_sinceStart = since\<rparr>, ts2))"


section \<open>Steps, Datasets and the store\<close>

text \<open>
  A JavaScript function the engine calls: it receives the receiver \<^verbatim>\<open>this\<close> and its
  arguments, runs on the heap of the host application (the objects the Context refers to, of
  any type \<open>'h\<close>) and either throws a value (\<open>Inl\<close>) or returns one (\<open>Inr\<close>).
  Guards, work functions and listeners act on that heap only: they do not reach the engine
  or its arrays (so the list of steps does not change while it is iterated), and they
  return. A registered step has functions for both members, as \<^verbatim>\<open>Step\<close> builds it.
\<close>

type_synonym 'h jsfun = "jsval \<Rightarrow> jsval list \<Rightarrow> 'h \<Rightarrow> (jsval + jsval) \<times> 'h"

text \<open>A Step object; \<open>sid\<close> is its identity (steps are compared by reference).\<close>

record 'h step =
  sid :: addr
  name :: string
  proceed :: "'h jsfun"
  step :: "'h jsfun"

definition noOpStep :: "'h jsfun" where
  "noOpStep this args h = (Inr JUndefined, h)"

text \<open>
  \<^verbatim>\<open>
  static Step(name, stepFunction, ...stepData) {
    let step = { name, proceed: (stepArgs) => { return true },
                 step: stepFunction || function noOpStep() {} };
    for (let i of stepData) { Object.assign(step, i) }
    return step;
  }
  \<close>
  Each element of \<^verbatim>\<open>stepData\<close> is given as the update \<^verbatim>\<open>Object.assign\<close> makes
  with it; \<open>a\<close> is the address of the new object.
\<close>

definition Step ::
    "addr \<Rightarrow> string \<Rightarrow> 'h jsfun option \<Rightarrow> ('h step \<Rightarrow> 'h step) list \<Rightarrow> 'h step" where
  "Step a nm stepFunction stepData =
     foldl (\<lambda>st i. i st)
       \<lparr>sid = a, name = nm,
        proceed = (\<lambda>this stepArgs h. (Inr (JBool True), h)),
        step = (case stepFunction of Some f \<Rightarrow> f | None \<Rightarrow> noOpStep)\<rparr>
       stepData"

text \<open>
  \<^verbatim>\<open>
  static Dataset(step, boundArgs) {
    return { stopclock: StopClock(), error: null, step: step, boundArgs: boundArgs }
  }
  \<close>
\<close>

record 'h dataset =
  ds_stopclock :: stopclock
  error :: jsval
  ds_step :: "'h step"
  boundArgs :: jsval

definition Dataset :: "'h step \<Rightarrow> jsval \<Rightarrow> timeline \<Rightarrow> 'h dataset \<times> timeline" where
  "Dataset s bound ts =
     (let (c, ts1) = StopClock ts
      in (\<lparr>ds_stopclock = c, error = JNull, ds_step = s, boundArgs = bound\<rparr>, ts1))"

text \<open>
  What the engine did, in order, for the claims that speak of calls and notifications: an
  event emitted (name, error argument, step) or a member of a step called (with what it threw
  or returned). Each entry carries the position of the loop of \<^verbatim>\<open>startSteppin\<close> it
  belongs to. The record is not read by any operation.
\<close>

datatype member = PROCEED | STEP

datatype action =
    Emitted string jsval addr
  | Called member addr "jsval + jsval"

text \<open>
  The world outside the engine object: the system clock, the arrays (of values and of
  Datasets) with the next unused address, the heap of the host application, and the record of
  what was done.
\<close>

record 'h world =
  dates :: timeline
  arrays :: "addr \<Rightarrow> jsval list"
  dsarrays :: "addr \<Rightarrow> 'h dataset list"
  fresh :: addr
  heap :: 'h
  trace :: "(nat \<times> action) list"

text \<open>An array literal allocates a new array.\<close>

definition new_array :: "jsval list \<Rightarrow> 'h world \<Rightarrow> addr \<times> 'h world" where
  "new_array xs w = (fresh w, w\<lparr>arrays := (arrays w)(fresh w := xs), fresh := Suc (fresh w)\<rparr>)"

definition new_dsarray :: "'h dataset list \<Rightarrow> 'h world \<Rightarrow> addr \<times> 'h world" where
  "new_dsarray ds w =
     (fresh w, w\<lparr>dsarrays := (dsarrays w)(fresh w := ds), fresh := Suc (fresh w)\<rparr>)"

text \<open>
  \<^verbatim>\<open>xs.concat(v)\<close>: a new array of the elements of \<^verbatim>\<open>xs\<close> followed by the elements
  of \<^verbatim>\<open>v\<close> when \<^verbatim>\<open>v\<close> is an array, by \<^verbatim>\<open>v\<close> itself otherwise.
\<close>

definition js_concat :: "jsval list \<Rightarrow> jsval \<Rightarrow> 'h world \<Rightarrow> addr \<times> 'h world" where
  "js_concat xs v w = new_array (xs @ (case v of JArr a \<Rightarrow> arrays w a | _ \<Rightarrow> [v])) w"

text \<open>\<^verbatim>\<open>a.push(d)\<close> on an array of Datasets.\<close>

definition push_dataset :: "addr \<Rightarrow> 'h dataset \<Rightarrow> 'h world \<Rightarrow> 'h world" where
  "push_dataset a d w = w\<lparr>dsarrays := (dsarrays w)(a := dsarrays w a @ [d])\<rparr>"


section \<open>Stepper\<close>

text \<open>
  The engine object. \<open>OARGS\<close>, \<open>BARGS\<close>, \<open>SDATA\<close> hold references to arrays;
  \<open>STEPS\<close> is the list of registered steps; \<open>TTIME\<close> is the run-level clock.
  \<open>listeners\<close> is what the inherited \<^verbatim>\<open>EventEmitter\<close> does with an emitted event: the
  listeners registered for the name run on the heap, and one that throws makes
  \<^verbatim>\<open>emit\<close> throw (\<open>Inl\<close>).
\<close>

record 'h stepper =
  OARGS :: jsval
  BARGS :: addr
  SDATA :: addr
  STEPS :: "'h step list"
  TTIME :: stopclock
  hasStepped :: bool
  listeners :: "string \<Rightarrow> jsval \<Rightarrow> 'h step \<Rightarrow> 'h dataset \<Rightarrow> 'h \<Rightarrow> (jsval + unit) \<times> 'h"

definition STEP_STARTED :: string where "STEP_STARTED = ''Step started''"
definition STEP_COMPLETED :: string where "STEP_COMPLETED = ''Step completed''"
definition STEP_FAILED :: string where "STEP_FAILED = ''Step Failed''"

definition no_listeners ::
    "string \<Rightarrow> jsval \<Rightarrow> 'h step \<Rightarrow> 'h dataset \<Rightarrow> 'h \<Rightarrow> (jsval + unit) \<times> 'h" where
  "no_listeners ev err s d h = (Inr (), h)"

text \<open>
  \<^verbatim>\<open>
  constructor(stepArgs, ...steps) {
    super();
    let args = (stepArgs === null || stepArgs === undefined) ? [] : stepArgs;
    if (!Array.isArray(args)) { args = [args]; }
    this[OARGS] = args;
    this[BARGS] = [].concat(args)
    this[SDATA] = []
    this[STEPS] = [].concat(steps)
    this[TTIME] = StopClock();
    this.hasStepped = false
  }
  \<close>
\<close>

definition Stepper_constructor ::
    "jsval \<Rightarrow> 'h step list \<Rightarrow> 'h world \<Rightarrow> 'h stepper \<times> 'h world" where
  "Stepper_constructor stepArgs steps w =
     (let (args, w1) = (if stepArgs = JNull \<or> stepArgs = JUndefined
                        then (let (a, w') = new_array [] w in (JArr a, w'))
                        else (stepArgs, w));
          (args, w2) = (if \<not> isArray args
                        then (let (a, w') = new_array [args] w1 in (JArr a, w'))
                        else (args, w1));
          (bargs, w3) = js_concat [] args w2;
          (sdata, w4) = new_dsarray [] w3;
          (ttime, ts) = StopClock (dates w4)
      in (\<lparr>OARGS = args, BARGS = bargs, SDATA = sdata, STEPS = [] @ steps, TTIME = ttime,
           hasStepped = False, listeners = no_listeners\<rparr>,
          w4\<lparr>dates := ts\<rparr>))"

text \<open>
  \<^verbatim>\<open>
  reset() {
    this.hasStepped = false;
    this[BARGS] = [].concat(this[OARGS])
    this[SDATA] = []
  }
  \<close>
\<close>

definition Stepper_reset :: "'h stepper \<Rightarrow> 'h world \<Rightarrow> 'h stepper \<times> 'h world" where
  "Stepper_reset this w =
     (let (bargs, w1) = js_concat [] (OARGS this) w;
          (sdata, w2) = new_dsarray [] w1
      in (this\<lparr>hasStepped := False, BARGS := bargs, SDATA := sdata\<rparr>, w2))"

text \<open>
  \<^verbatim>\<open>get steps() { return this[STEPS] }\<close>: the list of steps; a caller who pushes or
  splices it between runs updates the field \<open>STEPS\<close>.
\<close>

definition Stepper_steps :: "'h stepper \<Rightarrow> 'h step list" where
  "Stepper_steps this = STEPS this"

text \<open>
  \<^verbatim>\<open>
  get results() {
    return {
      stepped: this.hasStepped,
      timing: this[TTIME].summary,
      totalTime: this[TTIME].time,
      hasErrors: this[SDATA].reduce((p,c,i,a) => {
        if (p) { return true }
        if (c.error) { return true }
        return false;
      }, false),
      errors: this[SDATA].map(i => i.error).reduce((p,c) => c ? p.concat([c]) : p, []),
      data: this[SDATA]
    }
  }
  \<close>
  \<open>data\<close> is the reference held in \<open>SDATA\<close>; \<open>errors\<close> is a new array, given by its
  elements.
\<close>

record result =
  stepped :: bool
  timing :: summary
  totalTime :: int
  hasErrors :: bool
  errors :: "jsval list"
  data :: addr

definition Stepper_results :: "'h stepper \<Rightarrow> 'h world \<Rightarrow> result \<times> 'h world" where
  "Stepper_results this w =
     (let (tm, ts1) = StopClock_summary (TTIME this) (dates w);
          (tt, ts2) = StopClock_time (TTIME this) ts1;
          he = foldl (\<lambda>p c. if p then True else if truthy (error c) then True else False)
                 False (dsarrays w (SDATA this));
          errs = foldl (\<lambda>p c. if truthy c then p @ [c] else p)
                   [] (map error (dsarrays w (SDATA this)))
      in (\<lparr>stepped = hasStepped this, timing = tm, totalTime = tt, hasErrors = he,
           errors = errs, data = SDATA this\<rparr>,
          w\<lparr>dates := ts2\<rparr>))"

text \<open>
  \<^verbatim>\<open>this.emit(name, error, step, stepData)\<close>: the listeners run; the notification is
  recorded.
\<close>

definition emit ::
    "'h stepper \<Rightarrow> nat \<Rightarrow> string \<Rightarrow> jsval \<Rightarrow> 'h step \<Rightarrow> 'h dataset \<Rightarrow> 'h world
       \<Rightarrow> (jsval + unit) \<times> 'h world" where
  "emit this k ev err s d w =
     (let (r, h) = listeners this ev err s d (heap w)
      in (r, w\<lparr>heap := h, trace := trace w @ [(k, Emitted ev err (sid s))]\<rparr>))"

text \<open>A call of \<^verbatim>\<open>step.proceed\<close> or \<^verbatim>\<open>step.step\<close>; the call is recorded.\<close>

definition call ::
    "member \<Rightarrow> nat \<Rightarrow> 'h step \<Rightarrow> jsval \<Rightarrow> jsval list \<Rightarrow> 'h world
       \<Rightarrow> (jsval + jsval) \<times> 'h world" where
  "call m k s recv args w =
     (let (r, h) = (case m of PROCEED \<Rightarrow> proceed s | STEP \<Rightarrow> step s) recv args (heap w)
      in (r, w\<lparr>heap := h, trace := trace w @ [(k, Called m (sid s) r)]\<rparr>))"

text \<open>\<^verbatim>\<open>altContext || step\<close>\<close>

definition receiver :: "jsval \<Rightarrow> 'h step \<Rightarrow> jsval" where
  "receiver altContext s = (if truthy altContext then altContext else JObj (sid s))"

text \<open>\<^verbatim>\<open>stepData.stopclock.reset()\<close>, \<^verbatim>\<open>stepData.stopclock.stop()\<close>, \<^verbatim>\<open>this[TTIME].stop()\<close>\<close>

definition ds_reset :: "'h dataset \<Rightarrow> 'h world \<Rightarrow> 'h dataset \<times> 'h world" where
  "ds_reset d w =
     (let (c, ts) = StopClock_reset (ds_stopclock d) (dates w)
      in (d\<lparr>ds_stopclock := c\<rparr>, w\<lparr>dates := ts\<rparr>))"

definition ds_stop :: "'h dataset \<Rightarrow> 'h world \<Rightarrow> 'h dataset \<times> 'h world" where
  "ds_stop d w =
     (let (t, c, ts) = StopClock_stop LUndefined (ds_stopclock d) (dates w)
      in (d\<lparr>ds_stopclock := c\<rparr>, w\<lparr>dates := ts\<rparr>))"

definition ttime_stop :: "'h stepper \<Rightarrow> 'h world \<Rightarrow> 'h stepper \<times> 'h world" where
  "ttime_stop this w =
     (let (t, c, ts) = StopClock_stop LUndefined (TTIME this) (dates w)
      in (this\<lparr>TTIME := c\<rparr>, w\<lparr>dates := ts\<rparr>))"

text \<open>
  The \<^verbatim>\<open>try\<close> block of the loop body. It ends normally (\<open>Inr\<close>) after pushing the
  Dataset, or with the value thrown (\<open>Inl\<close>) and the Dataset as it was at the throw.
  \<^verbatim>\<open>
      try {
        this.emit(Stepper.STEP_STARTED, null, step, stepData)
        stepData.stopclock.reset()
        doIt = step.proceed.apply(altContext || step, this[BARGS])
        stepData.stopclock.stop()
        if (doIt) { boundedStep() }
        stepData.stopclock.stop()
        this.emit(Stepper.STEP_COMPLETED, null, step, stepData)
        this[SDATA].push(stepData)
      }
  \<close>
  \<open>bound\<close> holds the arguments \<^verbatim>\<open>bind\<close> captured for \<^verbatim>\<open>boundedStep\<close>.
\<close>

definition try_block ::
    "jsval \<Rightarrow> nat \<Rightarrow> 'h step \<Rightarrow> jsval list \<Rightarrow> 'h dataset \<Rightarrow> 'h stepper \<Rightarrow> 'h world
       \<Rightarrow> (jsval + unit) \<times> 'h dataset \<times> 'h world" where
  "try_block altContext k s bound stepData this w =
     (case emit this k STEP_STARTED JNull s stepData w of
        (Inl x, w1) \<Rightarrow> (Inl x, stepData, w1)
      | (Inr u, w1) \<Rightarrow>
         (let (d1, w2) = ds_reset stepData w1
          in case call PROCEED k s (receiver altContext s) (arrays w2 (BARGS this)) w2 of
               (Inl x, w3) \<Rightarrow> (Inl x, d1, w3)
             | (Inr doIt, w3) \<Rightarrow>
                (let (d2, w4) = ds_stop d1 w3
                 in case (if truthy doIt
                          then call STEP k s (receiver altContext s) bound w4
                          else (Inr JUndefined, w4)) of
                      (Inl x, w5) \<Rightarrow> (Inl x, d2, w5)
                    | (Inr v, w5) \<Rightarrow>
                       (let (d3, w6) = ds_stop d2 w5
                        in case emit this k STEP_COMPLETED JNull s d3 w6 of
                             (Inl x, w7) \<Rightarrow> (Inl x, d3, w7)
                           | (Inr u, w7) \<Rightarrow> (Inr (), d3, push_dataset (SDATA this) d3 w7)))))"

text \<open>
  One pass of the loop of \<^verbatim>\<open>startSteppin\<close>, for the step at position \<open>k\<close>:
  \<^verbatim>\<open>
      let stepData = Stepper.Dataset(step)
      let boundedStep = step.step.bind(altContext || step, ...this[BARGS])
      let doIt = false;
      try { ... }
      catch (error) {
        stepData.stopclock.stop()
        stepData.error = error
        this.emit(Stepper.STEP_FAILED, error, step, stepData);
        this[SDATA].push(stepData)
      }
      this[TTIME].stop()
  \<close>
  A listener of \<^verbatim>\<open>STEP_FAILED\<close> that throws does so inside the \<^verbatim>\<open>catch\<close> block:
  the value leaves the loop and \<^verbatim>\<open>startSteppin\<close> (\<open>Inl\<close>).
\<close>

definition run_step ::
    "jsval \<Rightarrow> nat \<Rightarrow> 'h step \<Rightarrow> 'h stepper \<Rightarrow> 'h world
       \<Rightarrow> (jsval + unit) \<times> 'h stepper \<times> 'h world" where
  "run_step altContext k s this w =
     (let (stepData, ts) = Dataset s JUndefined (dates w);
          w0 = w\<lparr>dates := ts\<rparr>;
          bound = arrays w0 (BARGS this)
      in case try_block altContext k s bound stepData this w0 of
           (Inr u, d, w1) \<Rightarrow> (let (this1, w2) = ttime_stop this w1 in (Inr (), this1, w2))
         | (Inl err, d, w1) \<Rightarrow>
            (let (d1, w2) = ds_stop d w1;
                 d2 = d1\<lparr>error := err\<rparr>
             in case emit this k STEP_FAILED err s d2 w2 of
                  (Inl x, w3) \<Rightarrow> (Inl x, this, w3)
                | (Inr u, w3) \<Rightarrow>
                   (let w4 = push_dataset (SDATA this) d2 w3;
                        (this1, w5) = ttime_stop this w4
                    in (Inr (), this1, w5))))"

text \<open>\<^verbatim>\<open>for (let step of this[STEPS]) { ... }\<close>, from position \<open>k\<close> on.\<close>

fun run_steps ::
    "jsval \<Rightarrow> nat \<Rightarrow> 'h step list \<Rightarrow> 'h stepper \<Rightarrow> 'h world
       \<Rightarrow> (jsval + unit) \<times> 'h stepper \<times> 'h world" where
  "run_steps altContext k [] this w = (Inr (), this, w)"
| "run_steps altContext k (s # ss) this w =
     (case run_step altContext k s this w of
        (Inl x, this1, w1) \<Rightarrow> (Inl x, this1, w1)
      | (Inr u, this1, w1) \<Rightarrow> run_steps altContext (Suc k) ss this1 w1)"

text \<open>
  \<^verbatim>\<open>
  startSteppin(altContext) {
    this[TTIME].reset();
    for (let step of this[STEPS]) { ... }
    this[TTIME].stop()
    this.hasStepped = true
    return this.results;
  }
  \<close>
  The result is what is thrown or returned, with the engine and the world as they are left.
\<close>

definition Stepper_startSteppin ::
    "jsval \<Rightarrow> 'h stepper \<Rightarrow> 'h world \<Rightarrow> (jsval + result) \<times> 'h stepper \<times> 'h world" where
  "Stepper_startSteppin altContext this w =
     (let (c, ts) = StopClock_reset (TTIME this) (dates w);
          this0 = this\<lparr>TTIME := c\<rparr>;
          w0 = w\<lparr>dates := ts\<rparr>
      in case run_steps altContext 0 (STEPS this0) this0 w0 of
           (Inl x, this1, w1) \<Rightarrow> (Inl x, this1, w1)
         | (Inr u, this1, w1) \<Rightarrow>
            (let (this2, w2) = ttime_stop this1 w1;
                 this3 = this2\<lparr>hasStepped := True\<rparr>;
                 (r, w3) = Stepper_results this3 w2
             in (Inr r, this3, w3)))"

text \<open>\<^verbatim>\<open>start(altContext) { return this.startSteppin(altContext) }\<close>\<close>

definition Stepper_start ::
    "jsval \<Rightarrow> 'h stepper \<Rightarrow> 'h world \<Rightarrow> (jsval + result) \<times> 'h stepper \<times> 'h world" where
  "Stepper_start altContext this w = Stepper_startSteppin altContext this w"


section \<open>Notions used to state the properties\<close>

text \<open>The test \<^verbatim>\<open>findStop\<close> applies to a stop: \<^verbatim>\<open>c.label && c.label == label\<close>.\<close>

definition matches :: "label \<Rightarrow> stoptime \<Rightarrow> bool" where
  "matches l s \<longleftrightarrow> truthy_label (st_label s) \<and> loose_eq (st_label s) l"

text \<open>\<^verbatim>\<open>+summary.stop\<close>: the number the \<^verbatim>\<open>stop\<close> field of a summary stands for.\<close>

fun stop_value :: "summary_stop \<Rightarrow> jsnum" where
  "stop_value (StopObject s) = Num (st_value s)"
| "stop_value InfinitySentinel = Infinity"

text \<open>
  The listeners registered for \<^verbatim>\<open>STEP_FAILED\<close> (for \<^verbatim>\<open>STEP_COMPLETED\<close>, for
  \<^verbatim>\<open>STEP_STARTED\<close>) return normally, whatever they are called with. A listener that
  throws does so inside \<^verbatim>\<open>emit\<close>: in the \<^verbatim>\<open>try\<close> block the value is caught as
  a failure of the step, in the \<^verbatim>\<open>catch\<close> block it leaves the run.
\<close>

definition failed_ok :: "'h stepper \<Rightarrow> bool" where
  "failed_ok this \<longleftrightarrow> (\<forall>err s d h. fst (listeners this STEP_FAILED err s d h) = Inr ())"

definition completed_ok :: "'h stepper \<Rightarrow> bool" where
  "completed_ok this \<longleftrightarrow> (\<forall>err s d h. fst (listeners this STEP_COMPLETED err s d h) = Inr ())"

definition started_ok :: "'h stepper \<Rightarrow> bool" where
  "started_ok this \<longleftrightarrow> (\<forall>err s d h. fst (listeners this STEP_STARTED err s d h) = Inr ())"

text \<open>The \<^verbatim>\<open>STEP_STARTED\<close> notifications of a record: loop position and step, in order.\<close>

fun started :: "(nat \<times> action) list \<Rightarrow> (nat \<times> addr) list" where
  "started [] = []"
| "started ((k, Emitted ev x i) # tr) =
     (if ev = STEP_STARTED then (k, i) # started tr else started tr)"
| "started ((k, Called m i r) # tr) = started tr"

text \<open>What was recorded between two worlds.\<close>

definition new_trace :: "'h world \<Rightarrow> 'h world \<Rightarrow> (nat \<times> action) list" where
  "new_trace w w' = drop (length (trace w)) (trace w')"

text \<open>
  What the record \<open>tr\<close> of a run says about the pass at position \<open>k\<close>, for step \<open>s\<close>
  with Dataset \<open>d\<close>: a value thrown by the guard or by the work function is the error of the
  Dataset and was notified as a failure; after a guard that returned a falsy value the work
  function was not called and (when the listeners of \<^verbatim>\<open>STEP_COMPLETED\<close> return, \<open>cok\<close>)
  the Dataset has no error.
\<close>

definition turn_ok ::
    "bool \<Rightarrow> nat \<Rightarrow> 'h step \<Rightarrow> 'h dataset \<Rightarrow> (nat \<times> action) list \<Rightarrow> bool" where
  "turn_ok cok k s d tr \<longleftrightarrow>
     (\<forall>x. (k, Called PROCEED (sid s) (Inl x)) \<in> set tr
           \<or> (k, Called STEP (sid s) (Inl x)) \<in> set tr
         \<longrightarrow> error d = x \<and> (k, Emitted STEP_FAILED x (sid s)) \<in> set tr)
   \<and> (\<forall>v. (k, Called PROCEED (sid s) (Inr v)) \<in> set tr \<and> \<not> truthy v
         \<longrightarrow> (\<forall>r. (k, Called STEP (sid s) r) \<notin> set tr) \<and> (cok \<longrightarrow> error d = JNull))"


text \<open>
  The calls of a member (guard or work function) recorded at loop position \<open>k\<close>, in
  order: the step called and what the call threw or returned.
\<close>

fun calls_at :: "member \<Rightarrow> nat \<Rightarrow> (nat \<times> action) list \<Rightarrow> (addr \<times> (jsval + jsval)) list" where
  "calls_at m k [] = []"
| "calls_at m k ((j, Emitted ev x i) # tr) = calls_at m k tr"
| "calls_at m k ((j, Called m' i r) # tr) =
     (if j = k \<and> m' = m then (i, r) # calls_at m k tr else calls_at m k tr)"

text \<open>A guard was called once and returned a truthy value.\<close>

fun returned_truthy :: "(addr \<times> (jsval + jsval)) list \<Rightarrow> bool" where
  "returned_truthy [(i, Inr v)] = truthy v"
| "returned_truthy cs = False"

text \<open>
  What the record \<open>tr\<close> says about the calls made in the pass at position \<open>k\<close>, for step
  \<open>s\<close>: the guard was called at most once; the work function was called once if the
  guard returned a truthy value and not at all otherwise; no member of another step was
  called.
\<close>

definition calls_ok :: "nat \<Rightarrow> 'h step \<Rightarrow> (nat \<times> action) list \<Rightarrow> bool" where
  "calls_ok k s tr \<longleftrightarrow>
     length (calls_at PROCEED k tr) \<le> 1
   \<and> set (map fst (calls_at PROCEED k tr)) \<subseteq> {sid s}
   \<and> set (map fst (calls_at STEP k tr)) \<subseteq> {sid s}
   \<and> length (calls_at STEP k tr)
       = (if returned_truthy (calls_at PROCEED k tr) then 1 else 0)"


section \<open>Example states\<close>

text \<open>
  A system clock that reads 1000 and advances by 5 ms at each reading; a clock started at 990
  with no stop; a clock started at 970 with three stops, the second one unlabelled.
\<close>

definition example_timeline :: timeline where
  "example_timeline = (\<lambda>n. 1000 + 5 * int n)"

definition example_clock :: stopclock where
  "example_clock = \<lparr>start = 990, stops = []\<rparr>"

definition example_clock2 :: stopclock where
  "example_clock2 =
     \<lparr>start = 970,
      stops = [\<lparr>st_value = 980, st_label = LStr ''a''\<rparr>,
               \<lparr>st_value = 985, st_label = LNull\<rparr>,
               \<lparr>st_value = 992, st_label = LStr ''a''\<rparr>]\<rparr>"

text \<open>
  An empty world whose heap is one counter, and steps on it: one that adds to the counter,
  one that throws an \<^verbatim>\<open>Error\<close>-like string, one whose guard returns \<^verbatim>\<open>false\<close>,
  one that throws \<^verbatim>\<open>false\<close>.
\<close>

definition example_world :: "int world" where
  "example_world =
     \<lparr>dates = example_timeline, arrays = (\<lambda>a. []), dsarrays = (\<lambda>a. []),
      fresh = 0, heap = 0, trace = []\<rparr>"

definition step_adds :: "int step" where
  "step_adds = Step 100 ''adds'' (Some (\<lambda>this args h. (Inr JUndefined, h + 1))) []"

definition step_throws :: "int step" where
  "step_throws =
     Step 101 ''throws'' (Some (\<lambda>this args h. (Inl (JStr ''NO NO NO!''), h))) []"

definition step_skipped :: "int step" where
  "step_skipped =
     Step 102 ''skipped'' (Some (\<lambda>this args h. (Inr JUndefined, h + 10)))
       [\<lambda>st. st\<lparr>proceed := (\<lambda>this args h. (Inr (JBool False), h))\<rparr>]"

definition step_throws_false :: "int step" where
  "step_throws_false =
     Step 103 ''throws false'' (Some (\<lambda>this args h. (Inl (JBool False), h))) []"

definition example_steps :: "int step list" where
  "example_steps = [step_adds, step_throws, step_skipped, step_adds]"

definition example_stepper :: "int stepper" where
  "example_stepper = fst (Stepper_constructor (JObj 7) example_steps example_world)"

definition example_store :: "int world" where
  "example_store = snd (Stepper_constructor (JObj 7) example_steps example_world)"

definition example_run :: "(jsval + result) \<times> int stepper \<times> int world" where
  "example_run = Stepper_startSteppin JUndefined example_stepper example_store"

definition falsy_stepper :: "int stepper" where
  "falsy_stepper =
     fst (Stepper_constructor JUndefined [step_adds, step_throws_false] example_world)"

definition falsy_store :: "int world" where
  "falsy_store =
     snd (Stepper_constructor JUndefined [step_adds, step_throws_false] example_world)"

definition falsy_run :: "(jsval + result) \<times> int stepper \<times> int world" where
  "falsy_run = Stepper_startSteppin JUndefined falsy_stepper falsy_store"

definition example_dataset :: "int dataset" where
  "example_dataset =
     \<lparr>ds_stopclock = example_clock, error = JStr ''injected'', ds_step = step_adds,
      boundArgs = JUndefined\<rparr>"

text \<open>A world that holds the array \<^verbatim>\<open>[obj, 1]\<close> at address 0.\<close>

definition array_world :: "int world" where
  "array_world = snd (new_array [JObj 7, JNum (Num 1)] example_world)"


text \<open>The engine after the run of the last two steps, then reset, then run again.\<close>

definition falsy_reset :: "int stepper \<times> int world" where
  "falsy_reset = Stepper_reset (fst (snd falsy_run)) (snd (snd falsy_run))"

definition falsy_rerun :: "(jsval + result) \<times> int stepper \<times> int world" where
  "falsy_rerun = Stepper_startSteppin JUndefined (fst falsy_reset) (snd falsy_reset)"


text \<open>
  Engines with a listener that throws: \<^verbatim>\<open>on('Step Failed', () => { throw 'bang' })\<close>
  on three steps of which the second fails, and
  \<^verbatim>\<open>on('Step completed', () => { throw 'boom' })\<close> on one step whose guard returns
  \<^verbatim>\<open>false\<close>.
\<close>

definition throwing_listener ::
    "string \<Rightarrow> jsval \<Rightarrow> string \<Rightarrow> jsval \<Rightarrow> int step \<Rightarrow> int dataset \<Rightarrow> int
       \<Rightarrow> (jsval + unit) \<times> int" where
  "throwing_listener nm x ev err s d h = (if ev = nm then (Inl x, h) else (Inr (), h))"

definition bang_stepper :: "int stepper" where
  "bang_stepper =
     (fst (Stepper_constructor JUndefined [step_skipped, step_throws, step_adds] example_world))
       \<lparr>listeners := throwing_listener STEP_FAILED (JStr ''bang'')\<rparr>"

definition bang_store :: "int world" where
  "bang_store =
     snd (Stepper_constructor JUndefined [step_skipped, step_throws, step_adds] example_world)"

definition bang_run :: "(jsval + result) \<times> int stepper \<times> int world" where
  "bang_run = Stepper_startSteppin JUndefined bang_stepper bang_store"

definition boom_stepper :: "int stepper" where
  "boom_stepper =
     (fst (Stepper_constructor JUndefined [step_skipped] example_world))
       \<lparr>listeners := throwing_listener STEP_COMPLETED (JStr ''boom'')\<rparr>"

definition boom_store :: "int world" where
  "boom_store = snd (Stepper_constructor JUndefined [step_skipped] example_world)"

definition boom_run :: "(jsval + result) \<times> int stepper \<times> int world" where
  "boom_run = Stepper_startSteppin JUndefined boom_stepper boom_store"


section \<open>StopClock: what the operations compute\<close>

lemma StopClock_stop_eq:
  "StopClock_stop lbl c ts =
     (ts 0 - (if stops c = [] then start c else st_value (last (stops c))),
      c\<lparr>stops := stops c @
          [\<lparr>st_value = ts 0, st_label = (if truthy_label lbl then lbl else LNull)\<rparr>]\<rparr>,
      \<lambda>n. ts (Suc n))"
  by (simp add: StopClock_stop_def Date_now_def last_conv_nth)

lemma StopClock_time_eq:
  "StopClock_time c ts =
     (if stops c = [] then (ts 0 - start c, \<lambda>n. ts (Suc n))
      else (st_value (last (stops c)) - start c, ts))"
  by (simp add: StopClock_time_def Date_now_def last_conv_nth)

lemma js_index_last:
  "js_index xs (int (length xs) - 1) = (if xs = [] then None else Some (last xs))"
  by (auto simp add: js_index_def last_conv_nth nat_diff_distrib')

lemma StopClock_summary_eq:
  "fst (StopClock_summary c ts) =
     \<lparr>sm_start = start c,
      sm_stops = map (summary_entry_of c (stops c)) (enumerate 0 (stops c)),
      sm_stop = (if stops c = [] then InfinitySentinel else StopObject (last (stops c))),
      sm_total = fst (StopClock_time c ts),
      sm_sinceStart = fst (StopClock_timeSinceStart c (snd (StopClock_time c ts)))\<rparr>"
  by (simp add: StopClock_summary_def js_index_last split_beta)

text \<open>
  C3, as the specification states it, fails: \<^verbatim>\<open>stop\<close> appends the reading of the system
  clock itself, not the time elapsed since \<open>start\<close>. On a clock started at 990 and stopped
  at 1000 the stop holds 1000, not 10.
\<close>

theorem stop_records_elapsed_counterexample:
  "st_value (last (stops (fst (snd (StopClock_stop LUndefined example_clock example_timeline)))))
     \<noteq> example_timeline 0 - start example_clock"
  by (simp add: StopClock_stop_eq example_clock_def example_timeline_def)

text \<open>
  C3, amended: for every clock, label and system clock, \<^verbatim>\<open>stop(label)\<close> returns the
  incremental delta, the milliseconds between now and the most recent prior event (the last
  stop, or \<open>start\<close> when there is none); the stop it appends records the absolute
  timestamp now, together with the label when the label is truthy and \<^verbatim>\<open>null\<close>
  otherwise. The elapsed time since \<open>start\<close> is not stored: the \<^verbatim>\<open>time\<close> query
  derives it from the timestamp as timestamp minus \<open>start\<close>.
\<close>

theorem stop_returns_delta_records_timestamp:
  "fst (StopClock_stop lbl c ts)
     = ts 0 - (if stops c = [] then start c else st_value (last (stops c)))
   \<and> fst (snd (StopClock_stop lbl c ts))
     = c\<lparr>stops := stops c @
          [\<lparr>st_value = ts 0, st_label = (if truthy_label lbl then lbl else LNull)\<rparr>]\<rparr>
   \<and> fst (StopClock_time (fst (snd (StopClock_stop lbl c ts))) ts') = ts 0 - start c"
  by (simp add: StopClock_stop_eq StopClock_time_eq)

theorem stop_returns_delta_records_timestamp_witness:
  "fst (StopClock_stop (LStr ''b'') example_clock2 example_timeline) = 8
   \<and> stops (fst (snd (StopClock_stop (LStr ''b'') example_clock2 example_timeline)))
       = stops example_clock2 @ [\<lparr>st_value = 1000, st_label = LStr ''b''\<rparr>]
   \<and> fst (StopClock_stop LUndefined example_clock example_timeline) = 10
   \<and> stops (fst (snd (StopClock_stop LUndefined example_clock example_timeline)))
       = [\<lparr>st_value = 1000, st_label = LNull\<rparr>]"
  using stop_returns_delta_records_timestamp
          [of "LStr ''b''" example_clock2 example_timeline example_timeline]
    stop_returns_delta_records_timestamp
          [of LUndefined example_clock example_timeline example_timeline]
  by (simp add: example_clock_def example_clock2_def example_timeline_def)

text \<open>
  C4, as the specification states it, fails in one field: the \<^verbatim>\<open>stop\<close> field of the
  summary is not the last stop's cumulative (elapsed since \<open>start\<close>) value. For a clock
  started at 970 whose last stop was taken at 992 the field stands for 992, while the
  elapsed time of that stop is 22.
\<close>

theorem summary_stop_is_elapsed_counterexample:
  "stop_value (sm_stop (fst (StopClock_summary example_clock2 example_timeline)))
     \<noteq> Num (st_value (last (stops example_clock2)) - start example_clock2)"
  by (simp add: StopClock_summary_eq example_clock2_def)

text \<open>
  C4, amended: for every clock, the summary has \<open>start\<close>; one entry per stop, in order,
  with \<open>time\<close> the timestamp the stop recorded, \<open>delta\<close> its difference from the
  previous stop's timestamp (0 for the first stop), \<open>total\<close> the stop's elapsed time since
  \<open>start\<close> and the stop's label; a \<open>stop\<close> field that is the last stop itself (the
  timestamp it recorded, with its label), or the \<^verbatim>\<open>Infinity\<close> sentinel when there is no
  stop; \<open>total\<close> equal to the \<^verbatim>\<open>time\<close> query; and \<open>sinceStart\<close> equal to the
  \<^verbatim>\<open>timeSinceStart\<close> query (read after \<^verbatim>\<open>time\<close>).
\<close>

theorem summary_snapshot:
  "sm_start (fst (StopClock_summary c ts)) = start c
   \<and> length (sm_stops (fst (StopClock_summary c ts))) = length (stops c)
   \<and> (\<forall>i<length (stops c).
        se_time (sm_stops (fst (StopClock_summary c ts)) ! i) = st_value (stops c ! i)
      \<and> se_delta (sm_stops (fst (StopClock_summary c ts)) ! i)
          = (if i = 0 then 0 else st_value (stops c ! i) - st_value (stops c ! (i - 1)))
      \<and> se_total (sm_stops (fst (StopClock_summary c ts)) ! i) = st_value (stops c ! i) - start c
      \<and> se_label (sm_stops (fst (StopClock_summary c ts)) ! i) = st_label (stops c ! i))
   \<and> sm_stop (fst (StopClock_summary c ts))
        = (if stops c = [] then InfinitySentinel else StopObject (last (stops c)))
   \<and> sm_total (fst (StopClock_summary c ts)) = fst (StopClock_time c ts)
   \<and> sm_sinceStart (fst (StopClock_summary c ts))
        = fst (StopClock_timeSinceStart c (snd (StopClock_time c ts)))"
  by (simp add: StopClock_summary_eq nth_enumerate_eq summary_entry_of_def)

theorem summary_snapshot_witness:
  "(2::nat) < length (stops example_clock2)
   \<and> se_delta (sm_stops (fst (StopClock_summary example_clock2 example_timeline)) ! 0) = 0
   \<and> se_total (sm_stops (fst (StopClock_summary example_clock2 example_timeline)) ! 0) = 10
   \<and> se_delta (sm_stops (fst (StopClock_summary example_clock2 example_timeline)) ! 2) = 7
   \<and> se_total (sm_stops (fst (StopClock_summary example_clock2 example_timeline)) ! 2) = 22
   \<and> sm_stop (fst (StopClock_summary example_clock2 example_timeline))
     = StopObject \<lparr>st_value = 992, st_label = LStr ''a''\<rparr>
   \<and> sm_total (fst (StopClock_summary example_clock2 example_timeline)) = 22
   \<and> sm_sinceStart (fst (StopClock_summary example_clock2 example_timeline)) = 30
   \<and> sm_stop (fst (StopClock_summary example_clock example_timeline)) = InfinitySentinel
   \<and> sm_total (fst (StopClock_summary example_clock example_timeline)) = 10
   \<and> sm_sinceStart (fst (StopClock_summary example_clock example_timeline)) = 15"
  using summary_snapshot [of example_clock2 example_timeline]
    summary_snapshot [of example_clock example_timeline]
  by (simp add: example_clock2_def example_clock_def example_timeline_def
        StopClock_time_eq StopClock_timeSinceStart_def Date_now_def)

text \<open>
  C9: for every clock with no stop, \<^verbatim>\<open>timeSinceLastStop\<close> is \<^verbatim>\<open>NaN\<close> (now minus
  the missing last element); for every clock with a stop it is the value of the
  \<^verbatim>\<open>time\<close> query, the last stop minus \<open>start\<close>, whatever the system clock reads now:
  not the time elapsed since the last stop.
\<close>

theorem timeSinceLastStop_behaviour:
  "(stops c = [] \<longrightarrow> fst (StopClock_timeSinceLastStop c ts) = NaN)
   \<and> (stops c \<noteq> [] \<longrightarrow>
        fst (StopClock_timeSinceLastStop c ts) = Num (fst (StopClock_time c ts))
      \<and> fst (StopClock_time c ts) = st_value (last (stops c)) - start c
      \<and> fst (StopClock_timeSinceLastStop c ts') = fst (StopClock_timeSinceLastStop c ts))"
  by (simp add: StopClock_timeSinceLastStop_def StopClock_time_eq js_index_def Date_now_def)

theorem timeSinceLastStop_behaviour_witness:
  "stops example_clock = []
   \<and> fst (StopClock_timeSinceLastStop example_clock example_timeline) = NaN
   \<and> stops example_clock2 \<noteq> []
   \<and> fst (StopClock_timeSinceLastStop example_clock2 example_timeline) = Num 22
   \<and> fst (StopClock_time example_clock2 example_timeline) = 22"
  using timeSinceLastStop_behaviour [of example_clock example_timeline example_timeline]
    timeSinceLastStop_behaviour [of example_clock2 example_timeline example_timeline]
  by (simp add: example_clock_def example_clock2_def)


lemma findStop_found_stays:
  "foldl (findStop_step c l) (Some r) xs = Some r"
  by (induction xs) (simp_all add: findStop_step_def split_beta)

lemma findStop_step_None:
  "findStop_step c l None (i, x) =
     (if matches l x
      then Some \<lparr>fs_value = st_value x, fs_stop = st_value x, fs_start = start c,
                 fs_label = st_label x, fs_index = i\<rparr>
      else None)"
  by (simp add: findStop_step_def matches_def)

lemma findStop_none_iff:
  "foldl (findStop_step c l) None (enumerate n xs) = None \<longleftrightarrow> (\<forall>s\<in>set xs. \<not> matches l s)"
  by (induction xs arbitrary: n) (simp_all add: findStop_step_None findStop_found_stays)

lemma findStop_some:
  "foldl (findStop_step c l) None (enumerate n xs) = Some r \<Longrightarrow>
     n \<le> fs_index r \<and> fs_index r < n + length xs
     \<and> matches l (xs ! (fs_index r - n))
     \<and> (\<forall>j<fs_index r - n. \<not> matches l (xs ! j))
     \<and> r = \<lparr>fs_value = st_value (xs ! (fs_index r - n)), fs_stop = st_value (xs ! (fs_index r - n)),
            fs_start = start c, fs_label = st_label (xs ! (fs_index r - n)), fs_index = fs_index r\<rparr>"
proof (induction xs arbitrary: n)
  case Nil
  then show ?case by simp
next
  case (Cons x xs)
  show ?case
  proof (cases "matches l x")
    case True
    with Cons.prems have "r = \<lparr>fs_value = st_value x, fs_stop = st_value x, fs_start = start c,
                 fs_label = st_label x, fs_index = n\<rparr>"
      by (simp add: findStop_step_None findStop_found_stays)
    with True show ?thesis by simp
  next
    case False
    with Cons.prems have "foldl (findStop_step c l) None (enumerate (Suc n) xs) = Some r"
      by (simp add: findStop_step_None)
    from Cons.IH [OF this] False show ?thesis
      by (auto simp add: Suc_diff_le nth_Cons' less_Suc_eq_0_disj)
  qed
qed

text \<open>
  C10: \<^verbatim>\<open>findStop\<close> only ever returns a stop that carries a truthy label. A stop taken
  by \<^verbatim>\<open>stop()\<close> with no label argument has the label \<^verbatim>\<open>null\<close>; the stop returned
  for any \<open>l\<close> has a truthy label equal to \<open>l\<close>, so it is never an unlabelled one, and
  it is the first such stop in sequence order (with its value, label and the clock's
  \<open>start\<close>); nothing is returned exactly when no stop carries a truthy label equal to
  \<open>l\<close>; in particular \<^verbatim>\<open>findStop(null)\<close> and \<^verbatim>\<open>findStop(undefined)\<close> return
  nothing, whatever stops exist.
\<close>

theorem findStop_truthy_first_match:
  "st_label (last (stops (fst (snd (StopClock_stop LUndefined c ts))))) = LNull
   \<and> (\<forall>r. StopClock_findStop l c = Some r \<longrightarrow>
         fs_index r < length (stops c)
       \<and> truthy_label (st_label (stops c ! fs_index r))
       \<and> loose_eq (st_label (stops c ! fs_index r)) l
       \<and> st_label (stops c ! fs_index r) \<noteq> LNull
       \<and> (\<forall>j<fs_index r. \<not> (truthy_label (st_label (stops c ! j))
                               \<and> loose_eq (st_label (stops c ! j)) l))
       \<and> fs_label r = st_label (stops c ! fs_index r)
       \<and> fs_stop r = st_value (stops c ! fs_index r)
       \<and> fs_start r = start c)
   \<and> (StopClock_findStop l c = None \<longleftrightarrow>
        (\<forall>s\<in>set (stops c). \<not> (truthy_label (st_label s) \<and> loose_eq (st_label s) l)))
   \<and> StopClock_findStop LNull c = None
   \<and> StopClock_findStop LUndefined c = None"
proof -
  have a: "st_label (last (stops (fst (snd (StopClock_stop LUndefined c ts))))) = LNull"
    by (simp add: StopClock_stop_eq)
  have b: "\<forall>r. StopClock_findStop l c = Some r \<longrightarrow>
         fs_index r < length (stops c)
       \<and> truthy_label (st_label (stops c ! fs_index r))
       \<and> loose_eq (st_label (stops c ! fs_index r)) l
       \<and> st_label (stops c ! fs_index r) \<noteq> LNull
       \<and> (\<forall>j<fs_index r. \<not> (truthy_label (st_label (stops c ! j))
                               \<and> loose_eq (st_label (stops c ! j)) l))
       \<and> fs_label r = st_label (stops c ! fs_index r)
       \<and> fs_stop r = st_value (stops c ! fs_index r)
       \<and> fs_start r = start c"
  proof (intro allI impI)
    fix r
    assume "StopClock_findStop l c = Some r"
    then have f: "foldl (findStop_step c l) None (enumerate 0 (stops c)) = Some r"
      by (simp add: StopClock_findStop_def)
    note g = findStop_some [OF f]
    from g have m: "matches l (stops c ! fs_index r)" by simp
    then have "st_label (stops c ! fs_index r) \<noteq> LNull"
      by (auto simp add: matches_def)
    moreover from g have "fs_label r = st_label (stops c ! fs_index r)
       \<and> fs_stop r = st_value (stops c ! fs_index r) \<and> fs_start r = start c"
      by (cases r) simp
    ultimately show "fs_index r < length (stops c)
       \<and> truthy_label (st_label (stops c ! fs_index r))
       \<and> loose_eq (st_label (stops c ! fs_index r)) l
       \<and> st_label (stops c ! fs_index r) \<noteq> LNull
       \<and> (\<forall>j<fs_index r. \<not> (truthy_label (st_label (stops c ! j))
                               \<and> loose_eq (st_label (stops c ! j)) l))
       \<and> fs_label r = st_label (stops c ! fs_index r)
       \<and> fs_stop r = st_value (stops c ! fs_index r)
       \<and> fs_start r = start c"
      using g m by (simp add: matches_def)
  qed
  have n: "\<And>l'. StopClock_findStop l' c = None \<longleftrightarrow>
        (\<forall>s\<in>set (stops c). \<not> (truthy_label (st_label s) \<and> loose_eq (st_label s) l'))"
    by (simp add: StopClock_findStop_def findStop_none_iff matches_def)
  have t: "\<And>x. truthy_label x \<Longrightarrow> \<not> loose_eq x LNull \<and> \<not> loose_eq x LUndefined"
    by (case_tac x) simp_all
  have d: "StopClock_findStop LNull c = None" "StopClock_findStop LUndefined c = None"
    using t by (auto simp add: n)
  from a b n d show ?thesis by blast
qed

theorem findStop_truthy_first_match_witness:
  "StopClock_findStop (LStr ''a'') example_clock2
     = Some \<lparr>fs_value = 980, fs_stop = 980, fs_start = 970, fs_label = LStr ''a'', fs_index = 0\<rparr>
   \<and> fs_index \<lparr>fs_value = 980, fs_stop = 980, fs_start = 970, fs_label = LStr ''a'', fs_index = 0\<rparr>
       < length (stops example_clock2)
   \<and> st_label (stops example_clock2 ! 1) = LNull
   \<and> StopClock_findStop LNull example_clock2 = None
   \<and> StopClock_findStop (LStr ''z'') example_clock2 = None"
  using findStop_truthy_first_match [of example_clock2 example_timeline "LStr ''a''"]
    findStop_truthy_first_match [of example_clock2 example_timeline "LStr ''z''"]
  by (simp add: example_clock2_def StopClock_findStop_def findStop_step_def)



section \<open>Stepper: what a run does\<close>

lemma event_names_distinct [simp]:
  "STEP_STARTED \<noteq> STEP_COMPLETED" "STEP_STARTED \<noteq> STEP_FAILED" "STEP_COMPLETED \<noteq> STEP_FAILED"
  "STEP_COMPLETED \<noteq> STEP_STARTED" "STEP_FAILED \<noteq> STEP_STARTED" "STEP_FAILED \<noteq> STEP_COMPLETED"
  by (simp_all add: STEP_STARTED_def STEP_COMPLETED_def STEP_FAILED_def)

lemma emit_proj [simp]:
  "fst (emit this k ev err s d w) = fst (listeners this ev err s d (heap w))"
  "trace (snd (emit this k ev err s d w)) = trace w @ [(k, Emitted ev err (sid s))]"
  "heap (snd (emit this k ev err s d w)) = snd (listeners this ev err s d (heap w))"
  "dsarrays (snd (emit this k ev err s d w)) = dsarrays w"
  "arrays (snd (emit this k ev err s d w)) = arrays w"
  "fresh (snd (emit this k ev err s d w)) = fresh w"
  by (simp_all add: emit_def split_beta)

lemma call_proj [simp]:
  "fst (call PROCEED k s recv args w) = fst (proceed s recv args (heap w))"
  "fst (call STEP k s recv args w) = fst (step s recv args (heap w))"
  "trace (snd (call m k s recv args w)) = trace w @ [(k, Called m (sid s) (fst (call m k s recv args w)))]"
  "dsarrays (snd (call m k s recv args w)) = dsarrays w"
  "arrays (snd (call m k s recv args w)) = arrays w"
  "fresh (snd (call m k s recv args w)) = fresh w"
  by (simp_all add: call_def split_beta)

lemma ds_stop_proj [simp]:
  "error (fst (ds_stop d w)) = error d"
  "ds_step (fst (ds_stop d w)) = ds_step d"
  "trace (snd (ds_stop d w)) = trace w"
  "heap (snd (ds_stop d w)) = heap w"
  "dsarrays (snd (ds_stop d w)) = dsarrays w"
  "arrays (snd (ds_stop d w)) = arrays w"
  "fresh (snd (ds_stop d w)) = fresh w"
  by (simp_all add: ds_stop_def split_beta)

lemma ds_reset_proj [simp]:
  "error (fst (ds_reset d w)) = error d"
  "ds_step (fst (ds_reset d w)) = ds_step d"
  "trace (snd (ds_reset d w)) = trace w"
  "heap (snd (ds_reset d w)) = heap w"
  "dsarrays (snd (ds_reset d w)) = dsarrays w"
  "arrays (snd (ds_reset d w)) = arrays w"
  "fresh (snd (ds_reset d w)) = fresh w"
  by (simp_all add: ds_reset_def split_beta)

lemma ttime_stop_proj [simp]:
  "OARGS (fst (ttime_stop this w)) = OARGS this"
  "BARGS (fst (ttime_stop this w)) = BARGS this"
  "SDATA (fst (ttime_stop this w)) = SDATA this"
  "STEPS (fst (ttime_stop this w)) = STEPS this"
  "hasStepped (fst (ttime_stop this w)) = hasStepped this"
  "listeners (fst (ttime_stop this w)) = listeners this"
  "stepper.more (fst (ttime_stop this w)) = stepper.more this"
  "trace (snd (ttime_stop this w)) = trace w"
  "heap (snd (ttime_stop this w)) = heap w"
  "dsarrays (snd (ttime_stop this w)) = dsarrays w"
  "arrays (snd (ttime_stop this w)) = arrays w"
  "fresh (snd (ttime_stop this w)) = fresh w"
  by (simp_all add: ttime_stop_def split_beta)

lemma push_dataset_proj [simp]:
  "dsarrays (push_dataset a d w) = (dsarrays w)(a := dsarrays w a @ [d])"
  "trace (push_dataset a d w) = trace w"
  "heap (push_dataset a d w) = heap w"
  "arrays (push_dataset a d w) = arrays w"
  "fresh (push_dataset a d w) = fresh w"
  "dates (push_dataset a d w) = dates w"
  by (simp_all add: push_dataset_def)

lemma Dataset_proj [simp]:
  "error (fst (Dataset s b ts)) = JNull"
  "ds_step (fst (Dataset s b ts)) = s"
  by (simp_all add: Dataset_def split_beta)

lemma completed_okD:
  "completed_ok this \<Longrightarrow> fst (listeners this STEP_COMPLETED err s d h) = Inr ()"
  by (simp add: completed_ok_def)

lemma failed_okD:
  "failed_ok this \<Longrightarrow> fst (listeners this STEP_FAILED err s d h) = Inr ()"
  by (simp add: failed_ok_def)

lemma run_step_all:
  assumes "failed_ok this"
  shows "fst (run_step alt k s this w) = Inr ()
   \<and> SDATA (fst (snd (run_step alt k s this w))) = SDATA this
   \<and> BARGS (fst (snd (run_step alt k s this w))) = BARGS this
   \<and> OARGS (fst (snd (run_step alt k s this w))) = OARGS this
   \<and> STEPS (fst (snd (run_step alt k s this w))) = STEPS this
   \<and> hasStepped (fst (snd (run_step alt k s this w))) = hasStepped this
   \<and> listeners (fst (snd (run_step alt k s this w))) = listeners this
   \<and> arrays (snd (snd (run_step alt k s this w))) = arrays w
   \<and> fresh (snd (snd (run_step alt k s this w))) = fresh w
   \<and> dsarrays (snd (snd (run_step alt k s this w)))
       = (dsarrays w)(SDATA this := dsarrays w (SDATA this)
            @ [last (dsarrays (snd (snd (run_step alt k s this w))) (SDATA this))])
   \<and> ds_step (last (dsarrays (snd (snd (run_step alt k s this w))) (SDATA this))) = s
   \<and> trace (snd (snd (run_step alt k s this w)))
       = trace w @ new_trace w (snd (snd (run_step alt k s this w)))
   \<and> (\<forall>e\<in>set (new_trace w (snd (snd (run_step alt k s this w)))). fst e = k)
   \<and> started (new_trace w (snd (snd (run_step alt k s this w)))) = [(k, sid s)]
   \<and> turn_ok (completed_ok this) k s
       (last (dsarrays (snd (snd (run_step alt k s this w))) (SDATA this)))
       (new_trace w (snd (snd (run_step alt k s this w))))"
  using assms
  unfolding run_step_def try_block_def new_trace_def turn_ok_def
  apply (simp add: split_beta Let_def failed_okD split: sum.split)
  apply (auto simp add: completed_okD)
  done

lemma ttime_stop_eq:
  "fst (ttime_stop this w)
     = this\<lparr>TTIME := fst (snd (StopClock_stop LUndefined (TTIME this) (dates w)))\<rparr>"
  by (simp add: ttime_stop_def split_beta)

lemma started_append: "started (xs @ ys) = started xs @ started ys"
  by (induction xs rule: started.induct) simp_all

lemma turn_ok_cong:
  "(\<And>a. (k, a) \<in> set tr \<longleftrightarrow> (k, a) \<in> set tr') \<Longrightarrow> turn_ok cok k s d tr = turn_ok cok k s d tr'"
  by (simp add: turn_ok_def)

lemma ok_TTIME [simp]:
  "failed_ok (this\<lparr>TTIME := c\<rparr>) = failed_ok this"
  "completed_ok (this\<lparr>TTIME := c\<rparr>) = completed_ok this"
  by (simp_all add: failed_ok_def completed_ok_def)

lemma run_steps_ok:
  assumes "failed_ok this"
  shows "\<exists>c ds tr w'. run_steps alt k0 ss this w = (Inr (), this\<lparr>TTIME := c\<rparr>, w')
     \<and> arrays w' = arrays w \<and> fresh w' = fresh w
     \<and> dsarrays w' = (dsarrays w)(SDATA this := dsarrays w (SDATA this) @ ds)
     \<and> trace w' = trace w @ tr
     \<and> length ds = length ss \<and> map ds_step ds = ss
     \<and> (\<forall>e\<in>set tr. k0 \<le> fst e \<and> fst e < k0 + length ss)
     \<and> started tr = map (\<lambda>(k, s). (k, sid s)) (enumerate k0 ss)
     \<and> (\<forall>j<length ss. turn_ok (completed_ok this) (k0 + j) (ss ! j) (ds ! j) tr)"
  using assms
proof (induction ss arbitrary: k0 this w)
  case Nil
  have "this = this\<lparr>TTIME := TTIME this\<rparr>" by simp
  then have "run_steps alt k0 [] this w = (Inr (), this\<lparr>TTIME := TTIME this\<rparr>, w)" by simp
  then show ?case by (intro exI [of _ "TTIME this"] exI [of _ "[]"] exI [of _ w]) simp
next
  case (Cons s ss)
  define R where "R = run_step alt k0 s this w"
  define this1 where "this1 = fst (snd R)"
  define w1 where "w1 = snd (snd R)"
  define d where "d = last (dsarrays w1 (SDATA this))"
  define seg where "seg = new_trace w w1"
  note f = Cons.prems
  note all = run_step_all [OF f, of alt k0 s w, folded R_def, folded this1_def w1_def]
  have r: "R = (Inr (), this1, w1)"
    using all by (simp add: this1_def w1_def prod_eq_iff)
  have t1: "this1 = this\<lparr>TTIME := TTIME this1\<rparr>"
    using all by (intro stepper.equality) simp_all
  have fr: "arrays w1 = arrays w" "fresh w1 = fresh w"
    using all by simp_all
  have da: "dsarrays w1 = (dsarrays w)(SDATA this := dsarrays w (SDATA this) @ [d])" "ds_step d = s"
    using all by (simp_all add: d_def)
  have tr1: "trace w1 = trace w @ seg" "\<forall>e\<in>set seg. fst e = k0" "started seg = [(k0, sid s)]"
    using all by (simp_all add: seg_def)
  have tu: "turn_ok (completed_ok this) k0 s d seg"
    using all by (simp add: seg_def d_def)
  have f1: "failed_ok this1" using f t1 by (metis ok_TTIME(1))
  have c1: "completed_ok this1 = completed_ok this" using t1 by (metis ok_TTIME(2))
  have s1: "SDATA this1 = SDATA this" using all by simp
  from Cons.IH [OF f1, of "Suc k0" w1] obtain c ds tr w' where
    ih: "run_steps alt (Suc k0) ss this1 w1 = (Inr (), this1\<lparr>TTIME := c\<rparr>, w')"
      "arrays w' = arrays w1" "fresh w' = fresh w1"
      "dsarrays w' = (dsarrays w1)(SDATA this1 := dsarrays w1 (SDATA this1) @ ds)"
      "trace w' = trace w1 @ tr"
      "length ds = length ss" "map ds_step ds = ss"
      "\<forall>e\<in>set tr. Suc k0 \<le> fst e \<and> fst e < Suc k0 + length ss"
      "started tr = map (\<lambda>(k, s). (k, sid s)) (enumerate (Suc k0) ss)"
      "\<forall>j<length ss. turn_ok (completed_ok this1) (Suc k0 + j) (ss ! j) (ds ! j) tr"
    by blast
  have t2: "this1\<lparr>TTIME := c\<rparr> = this\<lparr>TTIME := c\<rparr>"
    by (subst t1) simp
  have run: "run_steps alt k0 (s # ss) this w = (Inr (), this\<lparr>TTIME := c\<rparr>, w')"
    using r ih(1) t2 by (simp add: R_def [symmetric])
  have dsa: "dsarrays w' = (dsarrays w)(SDATA this := dsarrays w (SDATA this) @ (d # ds))"
    using ih(4) da(1) s1 by simp
  have tra: "trace w' = trace w @ (seg @ tr)"
    using ih(5) tr1(1) by simp
  have rng: "\<forall>e\<in>set (seg @ tr). k0 \<le> fst e \<and> fst e < k0 + length (s # ss)"
    using tr1(2) ih(8) by auto
  have sta: "started (seg @ tr) = map (\<lambda>(k, s). (k, sid s)) (enumerate k0 (s # ss))"
    using tr1(3) ih(9) by (simp add: started_append)
  have tur: "\<forall>j<length (s # ss). turn_ok (completed_ok this) (k0 + j) ((s # ss) ! j) ((d # ds) ! j) (seg @ tr)"
  proof (intro allI impI)
    fix j assume j: "j < length (s # ss)"
    show "turn_ok (completed_ok this) (k0 + j) ((s # ss) ! j) ((d # ds) ! j) (seg @ tr)"
    proof (cases j)
      case 0
      have "\<And>a. (k0, a) \<in> set (seg @ tr) \<longleftrightarrow> (k0, a) \<in> set seg"
        using ih(8) by auto
      from turn_ok_cong [where k = k0 and tr = "seg @ tr" and tr' = seg and cok = "completed_ok this"
          and s = s and d = d, OF this] tu 0 show ?thesis by simp
    next
      case (Suc j')
      have "\<And>a. (k0 + j, a) \<in> set (seg @ tr) \<longleftrightarrow> (k0 + j, a) \<in> set tr"
        using tr1(2) Suc by auto
      from turn_ok_cong [where k = "k0 + j" and tr = "seg @ tr" and tr' = tr
          and cok = "completed_ok this" and s = "ss ! j'" and d = "ds ! j'", OF this] ih(10) c1 Suc j
      show ?thesis by simp
    qed
  qed
  show ?case
    using run fr ih(2,3,6,7) da(2) dsa tra rng sta tur
    by (intro exI [of _ c] exI [of _ "d # ds"] exI [of _ "seg @ tr"] exI [of _ w']) simp
qed

lemma hasErrors_foldl:
  "foldl (\<lambda>p c. if p then True else if truthy (error c) then True else False) b ds
     = (b \<or> (\<exists>d\<in>set ds. truthy (error d)))"
  by (induction ds arbitrary: b) auto

lemma errors_foldl:
  "foldl (\<lambda>p c. if truthy c then p @ [c] else p) acc xs = acc @ filter truthy xs"
  by (induction xs arbitrary: acc) simp_all

lemma Stepper_results_simps:
  "stepped (fst (Stepper_results this w)) = hasStepped this"
  "hasErrors (fst (Stepper_results this w)) = (\<exists>d\<in>set (dsarrays w (SDATA this)). truthy (error d))"
  "errors (fst (Stepper_results this w)) = filter truthy (map error (dsarrays w (SDATA this)))"
  "data (fst (Stepper_results this w)) = SDATA this"
  "dsarrays (snd (Stepper_results this w)) = dsarrays w"
  "arrays (snd (Stepper_results this w)) = arrays w"
  "fresh (snd (Stepper_results this w)) = fresh w"
  "trace (snd (Stepper_results this w)) = trace w"
  "heap (snd (Stepper_results this w)) = heap w"
  by (simp_all add: Stepper_results_def split_beta hasErrors_foldl errors_foldl)

lemma startSteppin_ok:
  assumes "failed_ok e"
  shows "\<exists>c r ds tr w'.
       Stepper_startSteppin alt e w = (Inr r, e\<lparr>TTIME := c, hasStepped := True\<rparr>, w')
     \<and> arrays w' = arrays w \<and> fresh w' = fresh w
     \<and> dsarrays w' = (dsarrays w)(SDATA e := dsarrays w (SDATA e) @ ds)
     \<and> trace w' = trace w @ tr
     \<and> length ds = length (STEPS e) \<and> map ds_step ds = STEPS e
     \<and> started tr = map (\<lambda>(k, s). (k, sid s)) (enumerate 0 (STEPS e))
     \<and> (\<forall>j<length (STEPS e). turn_ok (completed_ok e) j (STEPS e ! j) (ds ! j) tr)
     \<and> stepped r \<and> data r = SDATA e
     \<and> hasErrors r = (\<exists>d\<in>set (dsarrays w' (SDATA e)). truthy (error d))
     \<and> errors r = filter truthy (map error (dsarrays w' (SDATA e)))"
proof -
  define c0 where "c0 = fst (StopClock_reset (TTIME e) (dates w))"
  define w0 where "w0 = w\<lparr>dates := snd (StopClock_reset (TTIME e) (dates w))\<rparr>"
  have f0: "failed_ok (e\<lparr>TTIME := c0\<rparr>)" using assms by simp
  from run_steps_ok [OF f0, of alt 0 "STEPS e" w0] obtain c ds tr w1 where
    ih: "run_steps alt 0 (STEPS e) (e\<lparr>TTIME := c0\<rparr>) w0 = (Inr (), e\<lparr>TTIME := c\<rparr>, w1)"
      "arrays w1 = arrays w0" "fresh w1 = fresh w0"
      "dsarrays w1 = (dsarrays w0)(SDATA e := dsarrays w0 (SDATA e) @ ds)"
      "trace w1 = trace w0 @ tr"
      "length ds = length (STEPS e)" "map ds_step ds = STEPS e"
      "started tr = map (\<lambda>(k, s). (k, sid s)) (enumerate 0 (STEPS e))"
      "\<forall>j<length (STEPS e). turn_ok (completed_ok e) j (STEPS e ! j) (ds ! j) tr"
    by auto
  define e2 where "e2 = fst (ttime_stop (e\<lparr>TTIME := c\<rparr>) w1)"
  define w2 where "w2 = snd (ttime_stop (e\<lparr>TTIME := c\<rparr>) w1)"
  define e3 where "e3 = e2\<lparr>hasStepped := True\<rparr>"
  define r where "r = fst (Stepper_results e3 w2)"
  define w3 where "w3 = snd (Stepper_results e3 w2)"
  have e3: "e3 = e\<lparr>TTIME := TTIME e3, hasStepped := True\<rparr>"
    by (simp add: e3_def e2_def ttime_stop_eq)
  have run: "Stepper_startSteppin alt e w = (Inr r, e3, w3)"
    using ih(1)
    by (simp add: Stepper_startSteppin_def split_beta c0_def [symmetric] w0_def [symmetric]
          e2_def w2_def e3_def r_def w3_def Let_def)
  have w2: "arrays w2 = arrays w1" "fresh w2 = fresh w1" "trace w2 = trace w1"
       "dsarrays w2 = dsarrays w1"
    by (simp_all add: w2_def)
  have w3: "arrays w3 = arrays w2" "fresh w3 = fresh w2" "trace w3 = trace w2"
       "dsarrays w3 = dsarrays w2"
    by (simp_all add: w3_def Stepper_results_simps)
  have fr: "arrays w3 = arrays w" "fresh w3 = fresh w" "trace w3 = trace w @ tr"
       "dsarrays w3 = (dsarrays w)(SDATA e := dsarrays w (SDATA e) @ ds)"
    using ih(2,3,4,5) by (simp_all add: w3 w2 w0_def)
  have d2: "dsarrays w2 = dsarrays w3" by (simp add: w3)
  have "stepped r" "data r = SDATA e"
       "hasErrors r = (\<exists>d\<in>set (dsarrays w3 (SDATA e)). truthy (error d))"
       "errors r = filter truthy (map error (dsarrays w3 (SDATA e)))"
    by (simp_all add: r_def Stepper_results_simps e3_def e2_def d2 w2)
  moreover have "Stepper_startSteppin alt e w
      = (Inr r, e\<lparr>TTIME := TTIME e3, hasStepped := True\<rparr>, w3)"
    by (subst e3 [symmetric]) (rule run)
  ultimately show ?thesis
    using fr ih(6,7,8,9)
    by (intro exI [of _ "TTIME e3"] exI [of _ r] exI [of _ ds] exI [of _ tr] exI [of _ w3] conjI)
      assumption+
qed

lemma new_array_simps [simp]:
  "fst (new_array xs w) = fresh w"
  "snd (new_array xs w) = w\<lparr>arrays := (arrays w)(fresh w := xs), fresh := Suc (fresh w)\<rparr>"
  by (simp_all add: new_array_def)

lemma new_dsarray_simps [simp]:
  "fst (new_dsarray ds w) = fresh w"
  "snd (new_dsarray ds w) = w\<lparr>dsarrays := (dsarrays w)(fresh w := ds), fresh := Suc (fresh w)\<rparr>"
  by (simp_all add: new_dsarray_def)

lemma Stepper_reset_eq:
  "Stepper_reset e w =
     (e\<lparr>hasStepped := False, BARGS := fresh w, SDATA := Suc (fresh w)\<rparr>,
      w\<lparr>arrays := (arrays w)(fresh w := (case OARGS e of JArr a \<Rightarrow> arrays w a | _ \<Rightarrow> [OARGS e])),
        dsarrays := (dsarrays w)(Suc (fresh w) := []),
        fresh := Suc (Suc (fresh w))\<rparr>)"
  by (simp add: Stepper_reset_def js_concat_def split_beta)

lemma Stepper_constructor_fields:
  "hasStepped (fst (Stepper_constructor stepArgs steps w)) = False"
  "STEPS (fst (Stepper_constructor stepArgs steps w)) = steps"
  "OARGS (fst (Stepper_constructor stepArgs steps w))
     = (if stepArgs = JNull \<or> stepArgs = JUndefined \<or> \<not> isArray stepArgs
        then JArr (fresh w) else stepArgs)"
  "BARGS (fst (Stepper_constructor stepArgs steps w))
     = (if stepArgs = JNull \<or> stepArgs = JUndefined \<or> \<not> isArray stepArgs
        then Suc (fresh w) else fresh w)"
  "SDATA (fst (Stepper_constructor stepArgs steps w))
     = Suc (BARGS (fst (Stepper_constructor stepArgs steps w)))"
  "listeners (fst (Stepper_constructor stepArgs steps w)) = no_listeners"
  by (simp_all add: Stepper_constructor_def js_concat_def split_beta isArray_def)

lemma Stepper_constructor_store:
  "arrays (snd (Stepper_constructor stepArgs steps w))
     = (if stepArgs = JNull \<or> stepArgs = JUndefined
        then (arrays w)(fresh w := [], Suc (fresh w) := [])
        else if \<not> isArray stepArgs
        then (arrays w)(fresh w := [stepArgs], Suc (fresh w) := [stepArgs])
        else (arrays w)(fresh w := (case stepArgs of JArr a \<Rightarrow> arrays w a | _ \<Rightarrow> [])))"
  "dsarrays (snd (Stepper_constructor stepArgs steps w))
     = (dsarrays w)(SDATA (fst (Stepper_constructor stepArgs steps w)) := [])"
  by (auto simp add: Stepper_constructor_def js_concat_def split_beta isArray_def
        split: jsval.splits)

section \<open>Stepper: the calls of a run, whatever the listeners do\<close>

lemma started_okD:
  "started_ok this \<Longrightarrow> fst (listeners this STEP_STARTED err s d h) = Inr ()"
  by (simp add: started_ok_def)

lemma calls_at_append: "calls_at m k (xs @ ys) = calls_at m k xs @ calls_at m k ys"
  by (induction xs rule: calls_at.induct) simp_all

lemma calls_at_none: "\<forall>e\<in>set tr. fst e \<noteq> k \<Longrightarrow> calls_at m k tr = []"
  by (induction tr rule: calls_at.induct) simp_all

lemma calls_at_mem:
  "(i, r) \<in> set (calls_at m k tr) \<longleftrightarrow> (k, Called m i r) \<in> set tr"
  by (induction tr rule: calls_at.induct) auto

lemma calls_ok_cong:
  "calls_at PROCEED k tr = calls_at PROCEED k tr' \<Longrightarrow> calls_at STEP k tr = calls_at STEP k tr'
     \<Longrightarrow> calls_ok k s tr = calls_ok k s tr'"
  by (simp add: calls_ok_def)

lemma calls_ok_none:
  "calls_at PROCEED k tr = [] \<Longrightarrow> calls_at STEP k tr = [] \<Longrightarrow> calls_ok k s tr"
  by (simp add: calls_ok_def)

lemma started_ok_listeners:
  "listeners this' = listeners this \<Longrightarrow> started_ok this' = started_ok this"
  by (simp add: started_ok_def)

lemma try_block_trace:
  "trace (snd (snd (try_block alt k s bound d this w)))
       = trace w @ new_trace w (snd (snd (try_block alt k s bound d this w)))
   \<and> (\<forall>e\<in>set (new_trace w (snd (snd (try_block alt k s bound d this w)))). fst e = k)"
  unfolding try_block_def new_trace_def
  by (simp add: split_beta Let_def split: sum.split)

lemma try_block_calls:
  "calls_ok k s (new_trace w (snd (snd (try_block alt k s bound d this w))))"
  unfolding try_block_def new_trace_def calls_ok_def
  by (simp add: split_beta Let_def split: sum.split)

lemma try_block_guard_called:
  "started_ok this \<Longrightarrow>
     length (calls_at PROCEED k (new_trace w (snd (snd (try_block alt k s bound d this w))))) = 1"
  unfolding try_block_def new_trace_def
  by (simp add: split_beta Let_def started_okD split: sum.split)

lemma run_step_calls:
  "listeners (fst (snd (run_step alt k s this w))) = listeners this
   \<and> trace (snd (snd (run_step alt k s this w)))
       = trace w @ new_trace w (snd (snd (run_step alt k s this w)))
   \<and> (\<forall>e\<in>set (new_trace w (snd (snd (run_step alt k s this w)))). fst e = k)
   \<and> calls_ok k s (new_trace w (snd (snd (run_step alt k s this w))))
   \<and> (started_ok this \<longrightarrow>
        length (calls_at PROCEED k (new_trace w (snd (snd (run_step alt k s this w))))) = 1)"
proof -
  define d0 where "d0 = fst (Dataset s JUndefined (dates w))"
  define w0 where "w0 = w\<lparr>dates := snd (Dataset s JUndefined (dates w))\<rparr>"
  define TB where "TB = try_block alt k s (arrays w0 (BARGS this)) d0 this w0"
  define T where "T = new_trace w0 (snd (snd TB))"
  define E where "E = (case fst TB of Inl x \<Rightarrow> [(k, Emitted STEP_FAILED x (sid s))] | Inr u \<Rightarrow> [])"
  have tb: "trace (snd (snd TB)) = trace w @ T" "\<forall>e\<in>set T. fst e = k" "calls_ok k s T"
      "started_ok this \<longrightarrow> length (calls_at PROCEED k T) = 1"
    using try_block_trace [of alt k s "arrays w0 (BARGS this)" d0 this w0]
      try_block_calls [of k s w0 alt "arrays w0 (BARGS this)" d0 this]
      try_block_guard_called [of this k w0 alt s "arrays w0 (BARGS this)" d0]
    by (simp_all add: TB_def [symmetric] T_def [symmetric]) (simp add: w0_def)
  have r: "trace (snd (snd (run_step alt k s this w))) = trace (snd (snd TB)) @ E"
      "listeners (fst (snd (run_step alt k s this w))) = listeners this"
    by (simp_all add: run_step_def split_beta Let_def TB_def w0_def d0_def E_def
          split: sum.split)
  have n: "new_trace w (snd (snd (run_step alt k s this w))) = T @ E"
    by (simp add: new_trace_def r(1) tb(1))
  have e: "calls_at m k E = []" "\<forall>e\<in>set E. fst e = k" for m
    by (simp_all add: E_def split: sum.split)
  have c: "calls_at m k (T @ E) = calls_at m k T" for m
    by (simp add: calls_at_append e)
  from calls_ok_cong [of k "T @ E" T s] c tb(3) have "calls_ok k s (T @ E)" by simp
  with r tb e c show ?thesis
    by (auto simp add: n)
qed

lemma run_steps_calls:
  "\<exists>tr. trace (snd (snd (run_steps alt k0 ss this w))) = trace w @ tr
     \<and> listeners (fst (snd (run_steps alt k0 ss this w))) = listeners this
     \<and> (\<forall>e\<in>set tr. k0 \<le> fst e \<and> fst e < k0 + length ss)
     \<and> (\<forall>j<length ss. calls_ok (k0 + j) (ss ! j) tr)
     \<and> (started_ok this \<and> \<not> isl (fst (run_steps alt k0 ss this w))
          \<longrightarrow> (\<forall>j<length ss. length (calls_at PROCEED (k0 + j) tr) = 1))"
proof (induction ss arbitrary: k0 this w)
  case Nil
  show ?case by simp
next
  case (Cons s ss)
  define R where "R = run_step alt k0 s this w"
  define this1 where "this1 = fst (snd R)"
  define w1 where "w1 = snd (snd R)"
  define seg where "seg = new_trace w w1"
  note all = run_step_calls [of alt k0 s this w, folded R_def, folded this1_def w1_def,
      folded seg_def]
  have l1: "listeners this1 = listeners this" and t1: "trace w1 = trace w @ seg"
    and i1: "\<forall>e\<in>set seg. fst e = k0" and c1: "calls_ok k0 s seg"
    and g1: "started_ok this \<longrightarrow> length (calls_at PROCEED k0 seg) = 1"
    using all by simp_all
  have far: "calls_at m (k0 + Suc j) seg = []" for m j
    using i1 by (intro calls_at_none) auto
  show ?case
  proof (cases "fst R")
    case (Inl x)
    then have run: "run_steps alt k0 (s # ss) this w = (Inl x, this1, w1)"
      by (simp add: R_def [symmetric] this1_def w1_def split_beta)
    have "\<forall>j<length (s # ss). calls_ok (k0 + j) ((s # ss) ! j) seg"
    proof (intro allI impI)
      fix j assume "j < length (s # ss)"
      show "calls_ok (k0 + j) ((s # ss) ! j) seg"
        using c1 far by (cases j) (simp_all add: calls_ok_none)
    qed
    with run l1 t1 i1 show ?thesis
      by (intro exI [of _ seg]) simp
  next
    case (Inr u)
    then have run: "run_steps alt k0 (s # ss) this w = run_steps alt (Suc k0) ss this1 w1"
      by (simp add: R_def [symmetric] this1_def w1_def split_beta)
    from Cons.IH [of "Suc k0" this1 w1] obtain tr where
      ih: "trace (snd (snd (run_steps alt (Suc k0) ss this1 w1))) = trace w1 @ tr"
        "listeners (fst (snd (run_steps alt (Suc k0) ss this1 w1))) = listeners this1"
        "\<forall>e\<in>set tr. Suc k0 \<le> fst e \<and> fst e < Suc k0 + length ss"
        "\<forall>j<length ss. calls_ok (Suc k0 + j) (ss ! j) tr"
        "started_ok this1 \<and> \<not> isl (fst (run_steps alt (Suc k0) ss this1 w1))
          \<longrightarrow> (\<forall>j<length ss. length (calls_at PROCEED (Suc k0 + j) tr) = 1)"
      by blast
    have near: "calls_at m k0 tr = []" for m
      using ih(3) by (intro calls_at_none) auto
    have c0: "calls_at m k0 (seg @ tr) = calls_at m k0 seg" for m
      by (simp add: calls_at_append near)
    have cj: "calls_at m (k0 + Suc j) (seg @ tr) = calls_at m (Suc k0 + j) tr" for m j
      using far [of m j] by (simp add: calls_at_append)
    have ok: "\<forall>j<length (s # ss). calls_ok (k0 + j) ((s # ss) ! j) (seg @ tr)"
    proof (intro allI impI)
      fix j assume j: "j < length (s # ss)"
      show "calls_ok (k0 + j) ((s # ss) ! j) (seg @ tr)"
      proof (cases j)
        case 0
        with c1 calls_ok_cong [of k0 "seg @ tr" seg s] c0 show ?thesis by simp
      next
        case (Suc j')
        with j ih(4) calls_ok_cong [of "k0 + Suc j'" "seg @ tr" tr "ss ! j'"] cj
        show ?thesis by simp
      qed
    qed
    have so: "started_ok this1 = started_ok this"
      using l1 by (rule started_ok_listeners)
    have gc: "started_ok this \<and> \<not> isl (fst (run_steps alt k0 (s # ss) this w))
          \<longrightarrow> (\<forall>j<length (s # ss). length (calls_at PROCEED (k0 + j) (seg @ tr)) = 1)"
    proof (intro impI allI)
      fix j assume a: "started_ok this \<and> \<not> isl (fst (run_steps alt k0 (s # ss) this w))"
        and j: "j < length (s # ss)"
      show "length (calls_at PROCEED (k0 + j) (seg @ tr)) = 1"
      proof (cases j)
        case 0
        with a g1 c0 show ?thesis by simp
      next
        case (Suc j')
        with a j ih(5) so run cj show ?thesis by simp
      qed
    qed
    have rng: "\<forall>e\<in>set (seg @ tr). k0 \<le> fst e \<and> fst e < k0 + length (s # ss)"
      using i1 ih(3) by auto
    from run ih(1,2) l1 t1 rng ok gc show ?thesis
      by (intro exI [of _ "seg @ tr"]) simp
  qed
qed

lemma startSteppin_calls:
  "\<exists>tr. trace (snd (snd (Stepper_startSteppin alt e w))) = trace w @ tr
     \<and> (\<forall>x\<in>set tr. fst x < length (STEPS e))
     \<and> (\<forall>k<length (STEPS e). calls_ok k (STEPS e ! k) tr)
     \<and> (started_ok e \<and> \<not> isl (fst (Stepper_startSteppin alt e w))
          \<longrightarrow> (\<forall>k<length (STEPS e). length (calls_at PROCEED k tr) = 1))"
proof -
  define e0 where "e0 = e\<lparr>TTIME := fst (StopClock_reset (TTIME e) (dates w))\<rparr>"
  define w0 where "w0 = w\<lparr>dates := snd (StopClock_reset (TTIME e) (dates w))\<rparr>"
  define R where "R = run_steps alt 0 (STEPS e) e0 w0"
  from run_steps_calls [of alt 0 "STEPS e" e0 w0] obtain tr where
    h: "trace (snd (snd R)) = trace w0 @ tr"
      "\<forall>x\<in>set tr. 0 \<le> fst x \<and> fst x < 0 + length (STEPS e)"
      "\<forall>j<length (STEPS e). calls_ok (0 + j) (STEPS e ! j) tr"
      "started_ok e0 \<and> \<not> isl (fst R)
          \<longrightarrow> (\<forall>j<length (STEPS e). length (calls_at PROCEED (0 + j) tr) = 1)"
    unfolding R_def by blast
  have s0: "started_ok e0 = started_ok e"
    by (simp add: e0_def started_ok_def)
  have t: "trace (snd (snd (Stepper_startSteppin alt e w))) = trace (snd (snd R))"
    and i: "isl (fst (Stepper_startSteppin alt e w)) = isl (fst R)"
    by (simp_all add: Stepper_startSteppin_def split_beta Let_def R_def e0_def w0_def
          Stepper_results_simps split: sum.split)
  from h s0 show ?thesis
    by (intro exI [of _ tr]) (simp add: t i w0_def)
qed

lemma listeners_ok:
  "listeners e = no_listeners \<Longrightarrow> started_ok e"
  by (simp add: started_ok_def no_listeners_def)

section \<open>Stepper: the example runs\<close>

lemmas eval_defs = Stepper_constructor_def Stepper_startSteppin_def run_step_def try_block_def
  emit_def call_def ds_stop_def ds_reset_def ttime_stop_def push_dataset_def Dataset_def
  Stepper_results_def Stepper_reset_def StopClock_def StopClock_reset_def StopClock_stop_def
  StopClock_time_def StopClock_timeSinceStart_def StopClock_summary_def Date_now_def
  js_concat_def new_array_def new_dsarray_def receiver_def no_listeners_def Step_def
  noOpStep_def isArray_def js_index_def summary_entry_of_def
  STEP_STARTED_def STEP_COMPLETED_def STEP_FAILED_def
  example_world_def example_timeline_def example_steps_def
  step_adds_def step_throws_def step_skipped_def step_throws_false_def

lemma example_stepper_fields:
  "STEPS example_stepper = example_steps"
  "listeners example_stepper = no_listeners"
  "SDATA example_stepper = 2"
  "dsarrays example_store 2 = []"
  "trace example_store = []"
  by (simp_all add: example_stepper_def example_store_def eval_defs Let_def)

lemma example_run_trace:
  "trace (snd (snd example_run)) =
     [(0, Emitted STEP_STARTED JNull 100),
      (0, Called PROCEED 100 (Inr (JBool True))),
      (0, Called STEP 100 (Inr JUndefined)),
      (0, Emitted STEP_COMPLETED JNull 100),
      (1, Emitted STEP_STARTED JNull 101),
      (1, Called PROCEED 101 (Inr (JBool True))),
      (1, Called STEP 101 (Inl (JStr ''NO NO NO!''))),
      (1, Emitted STEP_FAILED (JStr ''NO NO NO!'') 101),
      (2, Emitted STEP_STARTED JNull 102),
      (2, Called PROCEED 102 (Inr (JBool False))),
      (2, Emitted STEP_COMPLETED JNull 102),
      (3, Emitted STEP_STARTED JNull 100),
      (3, Called PROCEED 100 (Inr (JBool True))),
      (3, Called STEP 100 (Inr JUndefined)),
      (3, Emitted STEP_COMPLETED JNull 100)]"
  by (simp add: example_run_def example_stepper_def example_store_def eval_defs Let_def)

lemma no_listeners_ok:
  "listeners e = no_listeners \<Longrightarrow> failed_ok e \<and> completed_ok e"
  by (simp add: failed_ok_def completed_ok_def no_listeners_def)

lemma falsy_run_fields:
  "listeners (fst (snd falsy_run)) = no_listeners"
  "STEPS (fst (snd falsy_run)) = [step_adds, step_throws_false]"
  "OARGS (fst (snd falsy_run)) = JArr 0"
  "hasStepped (fst (snd falsy_run))"
  "SDATA (fst (snd falsy_run)) = 2"
  "length (dsarrays (snd (snd falsy_run)) 2) = 2"
  "arrays (snd (snd falsy_run)) 0 = []"
  by (simp_all add: falsy_run_def falsy_stepper_def falsy_store_def eval_defs Let_def)

section \<open>Stepper: the properties\<close>

text \<open>
  C1, as the specification states it, fails for an engine with a listener of
  \<^verbatim>\<open>STEP_FAILED\<close> that throws: the listener runs inside the \<^verbatim>\<open>catch\<close> block,
  before the Dataset is pushed. With three steps of which the second throws, the run raises
  the listener's value, the accumulated list holds one Dataset and the third step is never
  started.
\<close>

theorem run_raises_counterexample:
  "fst bang_run = Inl (JStr ''bang'')
   \<and> length (STEPS bang_stepper) = 3
   \<and> (1, Called STEP (sid step_throws) (Inl (JStr ''NO NO NO!'')))
        \<in> set (trace (snd (snd bang_run)))
   \<and> length (dsarrays (snd (snd bang_run)) (SDATA bang_stepper)) = 1
   \<and> started (trace (snd (snd bang_run))) = [(0, sid step_skipped), (1, sid step_throws)]"
  by (simp add: bang_run_def bang_stepper_def bang_store_def throwing_listener_def
        eval_defs Let_def)

text \<open>
  C1, amended: for every engine whose listeners of \<^verbatim>\<open>STEP_FAILED\<close> return normally,
  every world and every \<^verbatim>\<open>altContext\<close>, a run over the \<open>N\<close> registered steps
  returns a Result (it does not raise), leaves the list of steps and the identity of the
  Dataset list unchanged, and appends exactly \<open>N\<close> Datasets to the accumulated list, one
  for each step in registration order. Every step is processed exactly once, in that order:
  nothing is recorded for a position beyond the list, each step is started once, its guard
  is called at most once (exactly once when the listeners of \<^verbatim>\<open>STEP_STARTED\<close> return
  normally), its work function is called once when the guard returned a truthy value and
  not at all otherwise, and no member of another step is called in its pass. Whenever the
  guard or the work function of the step at position \<open>k\<close> throws a value, that value is
  the error of the \<open>k\<close>-th new Dataset and was notified by \<^verbatim>\<open>STEP_FAILED\<close> for that
  step.
\<close>

theorem startSteppin_isolates_failures:
  assumes "failed_ok e"
  shows "\<exists>r e' w' ds tr.
       Stepper_startSteppin alt e w = (Inr r, e', w')
     \<and> SDATA e' = SDATA e \<and> STEPS e' = STEPS e
     \<and> dsarrays w' (SDATA e) = dsarrays w (SDATA e) @ ds
     \<and> length ds = length (STEPS e) \<and> map ds_step ds = STEPS e
     \<and> trace w' = trace w @ tr
     \<and> (\<forall>a\<in>set tr. fst a < length (STEPS e))
     \<and> started tr = map (\<lambda>(k, s). (k, sid s)) (enumerate 0 (STEPS e))
     \<and> (\<forall>k<length (STEPS e).
           length (calls_at PROCEED k tr) \<le> 1
         \<and> (started_ok e \<longrightarrow> length (calls_at PROCEED k tr) = 1)
         \<and> length (calls_at STEP k tr)
             = (if returned_truthy (calls_at PROCEED k tr) then 1 else 0)
         \<and> set (map fst (calls_at PROCEED k tr)) \<subseteq> {sid (STEPS e ! k)}
         \<and> set (map fst (calls_at STEP k tr)) \<subseteq> {sid (STEPS e ! k)})
     \<and> (\<forall>k<length (STEPS e). \<forall>x.
           (k, Called PROCEED (sid (STEPS e ! k)) (Inl x)) \<in> set tr
           \<or> (k, Called STEP (sid (STEPS e ! k)) (Inl x)) \<in> set tr
           \<longrightarrow> error (ds ! k) = x \<and> (k, Emitted STEP_FAILED x (sid (STEPS e ! k))) \<in> set tr)"
proof -
  from startSteppin_ok [OF assms, of alt w] obtain c r ds tr w' where
    h: "Stepper_startSteppin alt e w = (Inr r, e\<lparr>TTIME := c, hasStepped := True\<rparr>, w')"
      "dsarrays w' = (dsarrays w)(SDATA e := dsarrays w (SDATA e) @ ds)"
      "trace w' = trace w @ tr"
      "length ds = length (STEPS e)" "map ds_step ds = STEPS e"
      "started tr = map (\<lambda>(k, s). (k, sid s)) (enumerate 0 (STEPS e))"
      "\<forall>j<length (STEPS e). turn_ok (completed_ok e) j (STEPS e ! j) (ds ! j) tr"
    by blast
  from startSteppin_calls [of alt e w] obtain tr' where
    g: "trace (snd (snd (Stepper_startSteppin alt e w))) = trace w @ tr'"
      "\<forall>a\<in>set tr'. fst a < length (STEPS e)"
      "\<forall>k<length (STEPS e). calls_ok k (STEPS e ! k) tr'"
      "started_ok e \<and> \<not> isl (fst (Stepper_startSteppin alt e w))
          \<longrightarrow> (\<forall>k<length (STEPS e). length (calls_at PROCEED k tr') = 1)"
    by blast
  have eq: "tr' = tr"
    using g(1) h(3) by (simp add: h(1))
  have ni: "\<not> isl (fst (Stepper_startSteppin alt e w))"
    by (simp add: h(1))
  from g(3,4) eq ni have calls: "\<forall>k<length (STEPS e).
           length (calls_at PROCEED k tr) \<le> 1
         \<and> (started_ok e \<longrightarrow> length (calls_at PROCEED k tr) = 1)
         \<and> length (calls_at STEP k tr)
             = (if returned_truthy (calls_at PROCEED k tr) then 1 else 0)
         \<and> set (map fst (calls_at PROCEED k tr)) \<subseteq> {sid (STEPS e ! k)}
         \<and> set (map fst (calls_at STEP k tr)) \<subseteq> {sid (STEPS e ! k)}"
    unfolding calls_ok_def by simp
  from h(7) have thrown: "\<forall>k<length (STEPS e). \<forall>x.
           (k, Called PROCEED (sid (STEPS e ! k)) (Inl x)) \<in> set tr
           \<or> (k, Called STEP (sid (STEPS e ! k)) (Inl x)) \<in> set tr
           \<longrightarrow> error (ds ! k) = x \<and> (k, Emitted STEP_FAILED x (sid (STEPS e ! k))) \<in> set tr"
    unfolding turn_ok_def by blast
  have rng: "\<forall>a\<in>set tr. fst a < length (STEPS e)"
    using g(2) eq by simp
  have fld: "SDATA (e\<lparr>TTIME := c, hasStepped := True\<rparr>) = SDATA e"
      "STEPS (e\<lparr>TTIME := c, hasStepped := True\<rparr>) = STEPS e"
      "dsarrays w' (SDATA e) = dsarrays w (SDATA e) @ ds"
    using h(2) by simp_all
  from h(1,3,4,5,6) fld rng calls thrown show ?thesis
    by (intro exI [of _ r] exI [of _ "e\<lparr>TTIME := c, hasStepped := True\<rparr>"] exI [of _ w']
          exI [of _ ds] exI [of _ tr] conjI) assumption+
qed

theorem startSteppin_isolates_failures_witness:
  "failed_ok example_stepper \<and> started_ok example_stepper
   \<and> \<not> isl (fst example_run)
   \<and> length (dsarrays (snd (snd example_run)) (SDATA example_stepper)) = 4
   \<and> (1, Called STEP (sid step_throws) (Inl (JStr ''NO NO NO!''))) \<in> set (trace (snd (snd example_run)))
   \<and> error (dsarrays (snd (snd example_run)) (SDATA example_stepper) ! 1) = JStr ''NO NO NO!''
   \<and> (1, Emitted STEP_FAILED (JStr ''NO NO NO!'') (sid step_throws))
        \<in> set (trace (snd (snd example_run)))
   \<and> length (calls_at PROCEED 2 (trace (snd (snd example_run)))) = 1
   \<and> length (calls_at STEP 2 (trace (snd (snd example_run)))) = 0"
proof -
  have f: "failed_ok example_stepper" and so: "started_ok example_stepper"
    using no_listeners_ok listeners_ok example_stepper_fields(2) by blast+
  from startSteppin_isolates_failures [OF f, of JUndefined example_store]
  obtain r e' w' ds tr where
    h: "example_run = (Inr r, e', w')"
      "dsarrays w' (SDATA example_stepper) = dsarrays example_store (SDATA example_stepper) @ ds"
      "length ds = length (STEPS example_stepper)"
      "trace w' = trace example_store @ tr"
      "\<forall>k<length (STEPS example_stepper).
           length (calls_at PROCEED k tr) \<le> 1
         \<and> (started_ok example_stepper \<longrightarrow> length (calls_at PROCEED k tr) = 1)
         \<and> length (calls_at STEP k tr)
             = (if returned_truthy (calls_at PROCEED k tr) then 1 else 0)
         \<and> set (map fst (calls_at PROCEED k tr)) \<subseteq> {sid (STEPS example_stepper ! k)}
         \<and> set (map fst (calls_at STEP k tr)) \<subseteq> {sid (STEPS example_stepper ! k)}"
      "\<forall>k<length (STEPS example_stepper). \<forall>x.
           (k, Called PROCEED (sid (STEPS example_stepper ! k)) (Inl x)) \<in> set tr
           \<or> (k, Called STEP (sid (STEPS example_stepper ! k)) (Inl x)) \<in> set tr
           \<longrightarrow> error (ds ! k) = x
             \<and> (k, Emitted STEP_FAILED x (sid (STEPS example_stepper ! k))) \<in> set tr"
    unfolding example_run_def by blast
  have w: "snd (snd example_run) = w'" "fst example_run = Inr r" by (simp_all add: h(1))
  have ds: "dsarrays w' (SDATA example_stepper) = ds" and tr: "trace w' = tr"
    using h(2,4) by (simp_all add: example_stepper_fields)
  have s: "STEPS example_stepper ! 1 = step_throws" "length (STEPS example_stepper) = 4"
    by (simp_all add: example_stepper_fields example_steps_def)
  have c: "(1, Called STEP (sid step_throws) (Inl (JStr ''NO NO NO!''))) \<in> set tr"
    using example_run_trace w tr by (simp add: step_throws_def Step_def)
  have p: "calls_at PROCEED 2 tr = [(102, Inr (JBool False))]"
    using example_run_trace w tr by simp
  from h(6) [rule_format, of 1 "JStr ''NO NO NO!''"] c s
  have "error (ds ! 1) = JStr ''NO NO NO!''
      \<and> (1, Emitted STEP_FAILED (JStr ''NO NO NO!'') (sid step_throws)) \<in> set tr"
    by simp
  moreover from h(5) [rule_format, of 2] s so p
  have "length (calls_at PROCEED 2 tr) = 1 \<and> length (calls_at STEP 2 tr) = 0"
    by simp
  ultimately show ?thesis
    using f so h(3) w ds tr s c by simp
qed

text \<open>
  C2 does not hold of the code: \<^verbatim>\<open>results\<close> tests \<^verbatim>\<open>c.error\<close> for truthiness.
  In the run of a step that succeeds and a step that throws \<^verbatim>\<open>false\<close>, the second
  Dataset carries the error \<^verbatim>\<open>false\<close> and \<^verbatim>\<open>STEP_FAILED\<close> was emitted with it,
  yet \<open>hasErrors\<close> is false and \<open>errors\<close> is empty.
\<close>

theorem results_miss_falsy_error:
  "\<not> isl (fst falsy_run)
   \<and> map error (dsarrays (snd (snd falsy_run)) (data (projr (fst falsy_run)))) = [JNull, JBool False]
   \<and> (1, Called STEP (sid step_throws_false) (Inl (JBool False))) \<in> set (trace (snd (snd falsy_run)))
   \<and> (1, Emitted STEP_FAILED (JBool False) (sid step_throws_false))
        \<in> set (trace (snd (snd falsy_run)))
   \<and> hasErrors (projr (fst falsy_run)) = False
   \<and> errors (projr (fst falsy_run)) = []"
  by (simp add: falsy_run_def falsy_stepper_def falsy_store_def eval_defs Let_def)

text \<open>
  C5, as the specification states it, fails for engines with listeners that throw. With a
  listener of \<^verbatim>\<open>STEP_COMPLETED\<close> that throws, the notification is emitted inside the
  \<^verbatim>\<open>try\<close> block, so the Dataset of a step whose guard returned \<^verbatim>\<open>false\<close>
  carries the listener's value as its error; with a listener of \<^verbatim>\<open>STEP_FAILED\<close> that
  throws, a run in which a guard returned \<^verbatim>\<open>false\<close> raises and returns no Result.
\<close>

theorem falsy_guard_error_counterexample:
  "(0, Called PROCEED (sid step_skipped) (Inr (JBool False))) \<in> set (trace (snd (snd boom_run)))
   \<and> \<not> isl (fst boom_run)
   \<and> map ds_step (dsarrays (snd (snd boom_run)) (data (projr (fst boom_run)))) = [step_skipped]
   \<and> error (dsarrays (snd (snd boom_run)) (data (projr (fst boom_run))) ! 0) = JStr ''boom''
   \<and> (0, Called PROCEED (sid step_skipped) (Inr (JBool False)))
        \<in> set (trace (snd (snd bang_run)))
   \<and> isl (fst bang_run)"
  by (simp add: boom_run_def boom_stepper_def boom_store_def bang_run_def bang_stepper_def
        bang_store_def throwing_listener_def eval_defs Let_def)

text \<open>
  C5, amended: in every run, for every step whose guard returned a falsy value, no work
  function was called in that step's pass, whatever the listeners do. When the listeners
  of \<^verbatim>\<open>STEP_FAILED\<close> return normally the run returns a Result whose data holds, after
  what the list held before, one Dataset per registered step, the \<open>k\<close>-th for the
  \<open>k\<close>-th step; and when the listeners of \<^verbatim>\<open>STEP_COMPLETED\<close> return normally as
  well, the Dataset of a step whose guard returned a falsy value has the error
  \<^verbatim>\<open>null\<close>.
\<close>

theorem falsy_guard_skips_work:
  "\<exists>tr. trace (snd (snd (Stepper_startSteppin alt e w))) = trace w @ tr
     \<and> (\<forall>k<length (STEPS e). \<forall>v.
           (k, Called PROCEED (sid (STEPS e ! k)) (Inr v)) \<in> set tr \<and> \<not> truthy v
           \<longrightarrow> (\<forall>i y. (k, Called STEP i y) \<notin> set tr))
     \<and> (failed_ok e \<longrightarrow>
          (\<exists>r e' w' ds.
             Stepper_startSteppin alt e w = (Inr r, e', w')
           \<and> dsarrays w' (data r) = dsarrays w (SDATA e) @ ds
           \<and> length ds = length (STEPS e)
           \<and> (\<forall>k<length (STEPS e).
                 ds_step (ds ! k) = STEPS e ! k
               \<and> (completed_ok e \<longrightarrow>
                    (\<forall>v. (k, Called PROCEED (sid (STEPS e ! k)) (Inr v)) \<in> set tr
                          \<and> \<not> truthy v
                       \<longrightarrow> error (ds ! k) = JNull)))))"
proof -
  from startSteppin_calls [of alt e w] obtain tr where
    g: "trace (snd (snd (Stepper_startSteppin alt e w))) = trace w @ tr"
      "\<forall>k<length (STEPS e). calls_ok k (STEPS e ! k) tr"
    by blast
  have skip: "\<forall>k<length (STEPS e). \<forall>v.
           (k, Called PROCEED (sid (STEPS e ! k)) (Inr v)) \<in> set tr \<and> \<not> truthy v
           \<longrightarrow> (\<forall>i y. (k, Called STEP i y) \<notin> set tr)"
  proof (intro allI impI)
    fix k v i y
    assume k: "k < length (STEPS e)"
      and a: "(k, Called PROCEED (sid (STEPS e ! k)) (Inr v)) \<in> set tr \<and> \<not> truthy v"
    from g(2) k have ok: "calls_ok k (STEPS e ! k) tr" by simp
    from a have "(sid (STEPS e ! k), Inr v) \<in> set (calls_at PROCEED k tr)"
      by (simp add: calls_at_mem)
    moreover from ok have "length (calls_at PROCEED k tr) \<le> 1"
      by (simp add: calls_ok_def)
    ultimately have "calls_at PROCEED k tr = [(sid (STEPS e ! k), Inr v)]"
      by (cases "calls_at PROCEED k tr") auto
    with ok a have "calls_at STEP k tr = []"
      by (simp add: calls_ok_def)
    then show "(k, Called STEP i y) \<notin> set tr"
      using calls_at_mem [of i y STEP k tr] by simp
  qed
  have res: "failed_ok e \<longrightarrow>
          (\<exists>r e' w' ds.
             Stepper_startSteppin alt e w = (Inr r, e', w')
           \<and> dsarrays w' (data r) = dsarrays w (SDATA e) @ ds
           \<and> length ds = length (STEPS e)
           \<and> (\<forall>k<length (STEPS e).
                 ds_step (ds ! k) = STEPS e ! k
               \<and> (completed_ok e \<longrightarrow>
                    (\<forall>v. (k, Called PROCEED (sid (STEPS e ! k)) (Inr v)) \<in> set tr
                          \<and> \<not> truthy v
                       \<longrightarrow> error (ds ! k) = JNull))))"
  proof
    assume f: "failed_ok e"
    from startSteppin_ok [OF f, of alt w] obtain c r ds tr' w' where
      h: "Stepper_startSteppin alt e w = (Inr r, e\<lparr>TTIME := c, hasStepped := True\<rparr>, w')"
        "dsarrays w' = (dsarrays w)(SDATA e := dsarrays w (SDATA e) @ ds)"
        "trace w' = trace w @ tr'"
        "length ds = length (STEPS e)" "map ds_step ds = STEPS e"
        "\<forall>j<length (STEPS e). turn_ok (completed_ok e) j (STEPS e ! j) (ds ! j) tr'"
        "data r = SDATA e"
      by blast
    have eq: "tr' = tr"
      using g(1) h(3) by (simp add: h(1))
    from h(4,5) have st: "\<forall>k<length (STEPS e). ds_step (ds ! k) = STEPS e ! k"
      by (metis nth_map)
    from h(6) eq st have per: "\<forall>k<length (STEPS e).
                 ds_step (ds ! k) = STEPS e ! k
               \<and> (completed_ok e \<longrightarrow>
                    (\<forall>v. (k, Called PROCEED (sid (STEPS e ! k)) (Inr v)) \<in> set tr
                          \<and> \<not> truthy v
                       \<longrightarrow> error (ds ! k) = JNull))"
      unfolding turn_ok_def by blast
    have "dsarrays w' (data r) = dsarrays w (SDATA e) @ ds"
      using h(2,7) by simp
    with h(1,4) per show "\<exists>r e' w' ds.
             Stepper_startSteppin alt e w = (Inr r, e', w')
           \<and> dsarrays w' (data r) = dsarrays w (SDATA e) @ ds
           \<and> length ds = length (STEPS e)
           \<and> (\<forall>k<length (STEPS e).
                 ds_step (ds ! k) = STEPS e ! k
               \<and> (completed_ok e \<longrightarrow>
                    (\<forall>v. (k, Called PROCEED (sid (STEPS e ! k)) (Inr v)) \<in> set tr
                          \<and> \<not> truthy v
                       \<longrightarrow> error (ds ! k) = JNull)))"
      by blast
  qed
  from g(1) skip res show ?thesis by blast
qed

theorem falsy_guard_skips_work_witness:
  "failed_ok example_stepper \<and> completed_ok example_stepper
   \<and> \<not> isl (fst example_run)
   \<and> (2, Called PROCEED (sid step_skipped) (Inr (JBool False)))
        \<in> set (trace (snd (snd example_run)))
   \<and> \<not> truthy (JBool False)
   \<and> (2, Called STEP (sid step_skipped) (Inr JUndefined)) \<notin> set (trace (snd (snd example_run)))
   \<and> length (dsarrays (snd (snd example_run)) (data (projr (fst example_run)))) = 4
   \<and> ds_step (dsarrays (snd (snd example_run)) (data (projr (fst example_run))) ! 2) = step_skipped
   \<and> error (dsarrays (snd (snd example_run)) (data (projr (fst example_run))) ! 2) = JNull"
proof -
  have f: "failed_ok example_stepper" and c: "completed_ok example_stepper"
    using no_listeners_ok example_stepper_fields(2) by blast+
  from falsy_guard_skips_work [of JUndefined example_stepper example_store, folded example_run_def]
  obtain tr where
    t: "trace (snd (snd example_run)) = trace example_store @ tr"
      "\<forall>k<length (STEPS example_stepper). \<forall>v.
           (k, Called PROCEED (sid (STEPS example_stepper ! k)) (Inr v)) \<in> set tr \<and> \<not> truthy v
           \<longrightarrow> (\<forall>i y. (k, Called STEP i y) \<notin> set tr)"
      "failed_ok example_stepper \<longrightarrow>
          (\<exists>r e' w' ds.
             example_run = (Inr r, e', w')
           \<and> dsarrays w' (data r) = dsarrays example_store (SDATA example_stepper) @ ds
           \<and> length ds = length (STEPS example_stepper)
           \<and> (\<forall>k<length (STEPS example_stepper).
                 ds_step (ds ! k) = STEPS example_stepper ! k
               \<and> (completed_ok example_stepper \<longrightarrow>
                    (\<forall>v. (k, Called PROCEED (sid (STEPS example_stepper ! k)) (Inr v)) \<in> set tr
                          \<and> \<not> truthy v
                       \<longrightarrow> error (ds ! k) = JNull))))"
    by blast
  from t(3) f obtain r e' w' ds where
    h: "example_run = (Inr r, e', w')"
      "dsarrays w' (data r) = dsarrays example_store (SDATA example_stepper) @ ds"
      "length ds = length (STEPS example_stepper)"
      "\<forall>k<length (STEPS example_stepper).
                 ds_step (ds ! k) = STEPS example_stepper ! k
               \<and> (completed_ok example_stepper \<longrightarrow>
                    (\<forall>v. (k, Called PROCEED (sid (STEPS example_stepper ! k)) (Inr v)) \<in> set tr
                          \<and> \<not> truthy v
                       \<longrightarrow> error (ds ! k) = JNull))"
    by blast
  have w: "snd (snd example_run) = w'" "fst example_run = Inr r" by (simp_all add: h(1))
  have ds: "dsarrays w' (data r) = ds" and tr: "trace (snd (snd example_run)) = tr"
    using h(2) t(1) by (simp_all add: example_stepper_fields)
  have s: "STEPS example_stepper ! 2 = step_skipped" "length (STEPS example_stepper) = 4"
    by (simp_all add: example_stepper_fields example_steps_def)
  have g: "(2, Called PROCEED (sid step_skipped) (Inr (JBool False))) \<in> set tr"
    using example_run_trace tr by (simp add: step_skipped_def Step_def)
  from t(2) [rule_format, of 2 "JBool False"] g s
  have a: "(2, Called STEP (sid step_skipped) (Inr JUndefined)) \<notin> set tr"
    by simp
  from h(4) [rule_format, of 2] c g s
  have b: "ds_step (ds ! 2) = step_skipped \<and> error (ds ! 2) = JNull"
    by auto
  from f c h(3) w ds tr s g a b show ?thesis by simp
qed

text \<open>
  C6: for every engine and world, \<^verbatim>\<open>reset()\<close> sets \<open>hasStepped\<close> to false, leaves the
  registered steps and the original Context untouched, makes the working Context a new array
  (at an address not in use before) with the elements of the original Context, leaves every
  existing array as it was, and makes the accumulated Dataset list a new empty array; so the
  \<open>stepped\<close> flag reads false after it, and a run that follows (with listeners of
  \<^verbatim>\<open>STEP_FAILED\<close> that return) ends with exactly one Dataset per registered step,
  whatever the list held before.
\<close>

theorem reset_restores:
  "hasStepped (fst (Stepper_reset e w)) = False
   \<and> stepped (fst (Stepper_results (fst (Stepper_reset e w)) (snd (Stepper_reset e w)))) = False
   \<and> STEPS (fst (Stepper_reset e w)) = STEPS e
   \<and> OARGS (fst (Stepper_reset e w)) = OARGS e
   \<and> BARGS (fst (Stepper_reset e w)) = fresh w
   \<and> (\<forall>a. OARGS e = JArr a \<longrightarrow>
        arrays (snd (Stepper_reset e w)) (BARGS (fst (Stepper_reset e w))) = arrays w a)
   \<and> (\<forall>a<fresh w. arrays (snd (Stepper_reset e w)) a = arrays w a)
   \<and> fresh w \<le> SDATA (fst (Stepper_reset e w))
   \<and> dsarrays (snd (Stepper_reset e w)) (SDATA (fst (Stepper_reset e w))) = []
   \<and> (failed_ok e \<longrightarrow>
        (\<exists>r e' w'. Stepper_startSteppin alt (fst (Stepper_reset e w)) (snd (Stepper_reset e w))
                     = (Inr r, e', w')
           \<and> stepped r
           \<and> length (dsarrays w' (data r)) = length (STEPS e)))"
proof -
  have "failed_ok e \<longrightarrow>
        (\<exists>r e' w'. Stepper_startSteppin alt (fst (Stepper_reset e w)) (snd (Stepper_reset e w))
                     = (Inr r, e', w')
           \<and> stepped r
           \<and> length (dsarrays w' (data r)) = length (STEPS e))"
  proof
    assume f: "failed_ok e"
    define e1 where "e1 = fst (Stepper_reset e w)"
    define w1 where "w1 = snd (Stepper_reset e w)"
    have f1: "failed_ok e1" using f by (simp add: e1_def Stepper_reset_eq failed_ok_def)
    have s1: "STEPS e1 = STEPS e" "dsarrays w1 (SDATA e1) = []"
      by (simp_all add: e1_def w1_def Stepper_reset_eq)
    from startSteppin_ok [OF f1, of alt w1] obtain c r ds tr w' where
      h: "Stepper_startSteppin alt e1 w1 = (Inr r, e1\<lparr>TTIME := c, hasStepped := True\<rparr>, w')"
        "dsarrays w' = (dsarrays w1)(SDATA e1 := dsarrays w1 (SDATA e1) @ ds)"
        "length ds = length (STEPS e1)" "data r = SDATA e1" "stepped r"
      by blast
    then have "length (dsarrays w' (data r)) = length (STEPS e)"
      using s1 by simp
    with h(1,5) show "\<exists>r e' w'.
           Stepper_startSteppin alt (fst (Stepper_reset e w)) (snd (Stepper_reset e w))
             = (Inr r, e', w')
           \<and> stepped r
           \<and> length (dsarrays w' (data r)) = length (STEPS e)"
      unfolding e1_def [symmetric] w1_def [symmetric] by simp
  qed
  then show ?thesis
    by (simp add: Stepper_reset_eq Stepper_results_simps)
qed

theorem reset_restores_witness:
  "failed_ok (fst (snd falsy_run))
   \<and> hasStepped (fst (snd falsy_run))
   \<and> length (dsarrays (snd (snd falsy_run)) (SDATA (fst (snd falsy_run)))) = 2
   \<and> hasStepped (fst falsy_reset) = False
   \<and> STEPS (fst falsy_reset) = [step_adds, step_throws_false]
   \<and> arrays (snd falsy_reset) (BARGS (fst falsy_reset)) = []
   \<and> dsarrays (snd falsy_reset) (SDATA (fst falsy_reset)) = []
   \<and> \<not> isl (fst falsy_rerun)
   \<and> length (dsarrays (snd (snd falsy_rerun)) (data (projr (fst falsy_rerun)))) = 2"
proof -
  have f: "failed_ok (fst (snd falsy_run))"
    using no_listeners_ok falsy_run_fields(1) by blast
  note t = reset_restores [of "fst (snd falsy_run)" "snd (snd falsy_run)" JUndefined,
      folded falsy_reset_def, folded falsy_rerun_def]
  from t f obtain r e' w' where
    h: "falsy_rerun = (Inr r, e', w')"
       "length (dsarrays w' (data r)) = length (STEPS (fst (snd falsy_run)))"
    by blast
  have w: "snd (snd falsy_rerun) = w'" "fst falsy_rerun = Inr r" by (simp_all add: h(1))
  from t f h(2) w show ?thesis
    by (auto simp add: falsy_run_fields)
qed

text \<open>
  C7: the constructor sets \<open>hasStepped\<close> to false and keeps the steps it is given; with
  \<^verbatim>\<open>null\<close> or \<^verbatim>\<open>undefined\<close> the original and the working Context are empty
  arrays; with any other value that is not an array they are arrays holding exactly that
  value; with an array the original Context is that very array and the working Context is a
  new array with the same elements (the given array is left as it was); the Dataset list is a
  new empty array.
\<close>

theorem constructor_context:
  "hasStepped (fst (Stepper_constructor stepArgs steps w)) = False
   \<and> STEPS (fst (Stepper_constructor stepArgs steps w)) = steps
   \<and> (stepArgs = JNull \<or> stepArgs = JUndefined \<longrightarrow>
        arrays (snd (Stepper_constructor stepArgs steps w))
          (BARGS (fst (Stepper_constructor stepArgs steps w))) = []
      \<and> OARGS (fst (Stepper_constructor stepArgs steps w)) = JArr (fresh w)
      \<and> arrays (snd (Stepper_constructor stepArgs steps w)) (fresh w) = [])
   \<and> (stepArgs \<noteq> JNull \<and> stepArgs \<noteq> JUndefined \<and> \<not> isArray stepArgs \<longrightarrow>
        arrays (snd (Stepper_constructor stepArgs steps w))
          (BARGS (fst (Stepper_constructor stepArgs steps w))) = [stepArgs]
      \<and> OARGS (fst (Stepper_constructor stepArgs steps w)) = JArr (fresh w)
      \<and> arrays (snd (Stepper_constructor stepArgs steps w)) (fresh w) = [stepArgs])
   \<and> (\<forall>a. stepArgs = JArr a \<longrightarrow>
        OARGS (fst (Stepper_constructor stepArgs steps w)) = JArr a
      \<and> BARGS (fst (Stepper_constructor stepArgs steps w)) = fresh w
      \<and> arrays (snd (Stepper_constructor stepArgs steps w))
          (BARGS (fst (Stepper_constructor stepArgs steps w))) = arrays w a
      \<and> (a < fresh w \<longrightarrow> arrays (snd (Stepper_constructor stepArgs steps w)) a = arrays w a))
   \<and> dsarrays (snd (Stepper_constructor stepArgs steps w))
        (SDATA (fst (Stepper_constructor stepArgs steps w))) = []"
  by (simp add: Stepper_constructor_fields Stepper_constructor_store isArray_def)

theorem constructor_context_witness:
  "arrays (snd (Stepper_constructor JUndefined ([]::int step list) example_world))
     (BARGS (fst (Stepper_constructor JUndefined ([]::int step list) example_world))) = []
   \<and> JObj 7 \<noteq> JNull \<and> JObj 7 \<noteq> JUndefined \<and> \<not> isArray (JObj 7)
   \<and> arrays (snd (Stepper_constructor (JObj 7) ([]::int step list) example_world))
       (BARGS (fst (Stepper_constructor (JObj 7) ([]::int step list) example_world))) = [JObj 7]
   \<and> OARGS (fst (Stepper_constructor (JArr 0) ([]::int step list) array_world)) = JArr 0
   \<and> BARGS (fst (Stepper_constructor (JArr 0) ([]::int step list) array_world)) = 1
   \<and> arrays (snd (Stepper_constructor (JArr 0) ([]::int step list) array_world))
       (BARGS (fst (Stepper_constructor (JArr 0) ([]::int step list) array_world)))
       = [JObj 7, JNum (Num 1)]
   \<and> hasStepped (fst (Stepper_constructor (JArr 0) ([]::int step list) array_world)) = False"
  using constructor_context [of JUndefined "[]::int step list" example_world]
    constructor_context [of "JObj 7" "[]::int step list" example_world]
    constructor_context [of "JArr 0" "[]::int step list" array_world]
  by (auto simp add: isArray_def array_world_def example_world_def new_array_def)

text \<open>
  C8, as the specification states it, fails: the \<open>data\<close> field of \<^verbatim>\<open>results\<close> is the
  engine's own Dataset list. A caller who pushes a Dataset onto the array it was handed
  changes what the engine reports next, with no operation of the engine involved.
\<close>

theorem results_exposes_internal_list_counterexample:
  "data (fst (Stepper_results example_stepper example_store)) = SDATA example_stepper
   \<and> hasErrors (fst (Stepper_results example_stepper example_store)) = False
   \<and> hasErrors (fst (Stepper_results example_stepper
        (push_dataset (data (fst (Stepper_results example_stepper example_store)))
           example_dataset (snd (Stepper_results example_stepper example_store))))) = True
   \<and> errors (fst (Stepper_results example_stepper
        (push_dataset (data (fst (Stepper_results example_stepper example_store)))
           example_dataset (snd (Stepper_results example_stepper example_store)))))
       = [JStr ''injected'']"
  by (simp add: Stepper_results_simps example_stepper_fields example_dataset_def)

text \<open>
  C8, amended: the \<open>data\<close> field of every \<^verbatim>\<open>results\<close> is the reference the engine
  holds to its accumulated Dataset list (the same array, not a copy); a Dataset pushed
  through that reference is appended to the engine's list and is counted by the next
  \<^verbatim>\<open>results\<close> in \<open>errors\<close> and \<open>hasErrors\<close>.
\<close>

theorem results_data_is_internal_list:
  "data (fst (Stepper_results e w)) = SDATA e
   \<and> dsarrays (push_dataset (data (fst (Stepper_results e w))) d (snd (Stepper_results e w))) (SDATA e)
       = dsarrays w (SDATA e) @ [d]
   \<and> errors (fst (Stepper_results e
        (push_dataset (data (fst (Stepper_results e w))) d (snd (Stepper_results e w)))))
       = errors (fst (Stepper_results e w)) @ (if truthy (error d) then [error d] else [])
   \<and> hasErrors (fst (Stepper_results e
        (push_dataset (data (fst (Stepper_results e w))) d (snd (Stepper_results e w)))))
       = (hasErrors (fst (Stepper_results e w)) \<or> truthy (error d))"
proof -
  show ?thesis
    by (auto simp add: Stepper_results_simps push_dataset_def Stepper_reset_eq)
qed

theorem results_data_is_internal_list_witness:
  "dsarrays (push_dataset (data (fst (Stepper_results example_stepper example_store)))
       example_dataset (snd (Stepper_results example_stepper example_store)))
     (SDATA example_stepper) = [example_dataset]
   \<and> errors (fst (Stepper_results example_stepper
        (push_dataset (data (fst (Stepper_results example_stepper example_store)))
           example_dataset (snd (Stepper_results example_stepper example_store)))))
       = [JStr ''injected'']"
  using results_data_is_internal_list [of example_stepper example_store example_dataset]
  by (simp add: Stepper_results_simps example_stepper_fields example_dataset_def)

end
